theory Spec2Isabelle
  imports Complex_Main
begin

unbundle bit_operations_syntax

section \<open>Expression construction and constant folding\<close>

text \<open>
  A shallow embedding of \<^verbatim>\<open>src/lang/ir_operator.cc\<close>: type promotion of two operands,
  casts, the constant-folding operators and the reduction builders. A fatal \<^verbatim>\<open>CHECK\<close>
  or \<^verbatim>\<open>LOG(FATAL)\<close> of the source is the \<open>Inl\<close> branch of a sum type.
\<close>

subsection \<open>Type descriptors\<close>

text \<open>
  Modelled from the spec: the type descriptor is declared outside the sources. It is
  the triple of kind, bit width and lane count of the spec's data model. The source builds
  boolean literals as \<^verbatim>\<open>UIntImm::make(UInt(1), ...)\<close> and reads a \<^verbatim>\<open>Bool(1)\<close> condition with
  \<^verbatim>\<open>as<UIntImm>()\<close>, so a boolean is the unsigned kind of width 1.
\<close>

datatype TypeCode = TInt | TUInt | TFloat

datatype Type = Type (code: TypeCode) (bits: nat) (lanes: nat)

definition is_int :: "Type \<Rightarrow> bool" where
  "is_int t = (code t = TInt)"

definition is_uint :: "Type \<Rightarrow> bool" where
  "is_uint t = (code t = TUInt)"

definition is_float :: "Type \<Rightarrow> bool" where
  "is_float t = (code t = TFloat)"

definition Int_type :: "nat \<Rightarrow> nat \<Rightarrow> Type" where
  "Int_type b l = Type TInt b l"

definition UInt_type :: "nat \<Rightarrow> nat \<Rightarrow> Type" where
  "UInt_type b l = Type TUInt b l"

definition Float_type :: "nat \<Rightarrow> nat \<Rightarrow> Type" where
  "Float_type b l = Type TFloat b l"

definition Bool_type :: "nat \<Rightarrow> Type" where
  "Bool_type l = UInt_type 1 l"

definition element_of :: "Type \<Rightarrow> Type" where
  "element_of t = Type (code t) (bits t) 1"

text \<open>\<^verbatim>\<open>IsIndexType\<close>: a scalar signed integer of 32 or 64 bits.\<close>

definition IsIndexType :: "Type \<Rightarrow> bool" where
  "IsIndexType t = (is_int t \<and> lanes t = 1 \<and> (bits t = 32 \<or> bits t = 64))"

subsection \<open>Host arithmetic\<close>

text \<open>
  A literal holds an \<^verbatim>\<open>int64_t\<close>, a \<^verbatim>\<open>uint64_t\<close> or a \<^verbatim>\<open>double\<close>. Integer values are
  modelled as \<open>int\<close> with the wrap-around to 64 bits written out. Overflow of a signed
  64-bit operation and a shift count outside 0..63 are undefined in C++; the model gives
  them the two's-complement result of the x86-64 instruction (wrap-around, count taken
  modulo 64).
\<close>

definition wrap64 :: "int \<Rightarrow> int" where
  "wrap64 v = signed_take_bit 63 v"

definition add64 :: "int \<Rightarrow> int \<Rightarrow> int" where
  "add64 a b = wrap64 (a + b)"

definition mul64 :: "int \<Rightarrow> int \<Rightarrow> int" where
  "mul64 a b = wrap64 (a * b)"

definition shr64 :: "int \<Rightarrow> int \<Rightarrow> int" where
  "shr64 a n = drop_bit (nat (take_bit 6 n)) a"

definition shl64 :: "int \<Rightarrow> int \<Rightarrow> int" where
  "shl64 a n = wrap64 (push_bit (nat (take_bit 6 n)) a)"

text \<open>
  A \<^verbatim>\<open>double\<close> is an IEEE 754 binary64 value: a sign with a magnitude that is a
  representable rational, an infinity, or a NaN (payloads are not distinguished).
  Arithmetic is the exact rational result rounded to nearest, ties to even.
\<close>

datatype double = Finite bool rat | Infinity bool | NaN

definition pow2 :: "int \<Rightarrow> rat" where
  "pow2 e = (if 0 \<le> e then 2 ^ nat e else 1 / 2 ^ nat (- e))"

function bit_length :: "int \<Rightarrow> int" where
  "bit_length n = (if n \<le> 0 then 0 else 1 + bit_length (n div 2))"
  by pat_completeness auto
termination
  by (relation "measure nat") auto

declare bit_length.simps [simp del]

text \<open>The exponent \<open>e\<close> with \<open>2^e \<le> m < 2^(e+1)\<close>, for \<open>m > 0\<close>.\<close>

definition floor_log2 :: "rat \<Rightarrow> int" where
  "floor_log2 m =
     (let (a, b) = quotient_of m;
          d = bit_length a - bit_length b
      in if pow2 d \<le> m then d else d - 1)"

definition round_half_even :: "rat \<Rightarrow> int" where
  "round_half_even q =
     (let f = \<lfloor>q\<rfloor>; d = q - of_int f
      in if d < 1 / 2 then f
         else if 1 / 2 < d then f + 1
         else if even f then f else f + 1)"

text \<open>Rounding a sign and an exact magnitude \<open>m \<ge> 0\<close> to the binary format of \<open>p\<close>
  significant bits and largest exponent \<open>emax\<close> (gradual underflow, overflow to
  infinity): binary64 has 53 bits and exponents up to 1023, binary32 24 and 127,
  binary16 11 and 15.\<close>

definition round_float :: "int \<Rightarrow> int \<Rightarrow> bool \<Rightarrow> rat \<Rightarrow> double" where
  "round_float p emax s m =
     (if m = 0 then Finite s 0
      else let e = max (floor_log2 m) (1 - emax);
               u = pow2 (e - (p - 1));
               r = of_int (round_half_even (m / u)) * u
           in if pow2 (emax + 1) \<le> r then Infinity s else Finite s r)"

definition round_double :: "bool \<Rightarrow> rat \<Rightarrow> double" where
  "round_double s m = round_float 53 1023 s m"

text \<open>The conversions \<^verbatim>\<open>(float)value\<close> and \<^verbatim>\<open>(float16)value\<close> of a double, by the width of
  the target: a width other than 16 and 32 keeps the double.\<close>

definition narrow_double :: "nat \<Rightarrow> double \<Rightarrow> double" where
  "narrow_double b d =
     (case d of
        Finite s m \<Rightarrow>
          (if b = 16 then round_float 11 15 s m
           else if b = 32 then round_float 24 127 s m
           else Finite s m)
      | _ \<Rightarrow> d)"

text \<open>The doubles a literal of width \<open>b\<close> can hold: the values of binary64 (a magnitude
  that is not negative and that rounding keeps) that the narrowing to the width keeps.\<close>

definition representable :: "nat \<Rightarrow> double \<Rightarrow> bool" where
  "representable b d =
     ((case d of Finite s m \<Rightarrow> 0 \<le> m \<and> round_double s m = d | _ \<Rightarrow> True)
      \<and> narrow_double b d = d)"

definition round_signed :: "rat \<Rightarrow> double" where
  "round_signed q = round_double (q < 0) \<bar>q\<bar>"

text \<open>\<^verbatim>\<open>static_cast<double>(int64_t)\<close>.\<close>

definition double_of_int64 :: "int \<Rightarrow> double" where
  "double_of_int64 v = round_signed (of_int v)"

text \<open>\<^verbatim>\<open>static_cast<int64_t>(double)\<close> and \<^verbatim>\<open>static_cast<uint64_t>(double)\<close>: truncation
  towards zero. A NaN, an infinity or a value outside the target range is undefined in
  C++; the model returns the x86-64 "integer indefinite" bit pattern there.\<close>

definition trunc_double :: "double \<Rightarrow> int option" where
  "trunc_double d =
     (case d of Finite s m \<Rightarrow> Some (if s then - \<lfloor>m\<rfloor> else \<lfloor>m\<rfloor>) | _ \<Rightarrow> None)"

definition int64_of_double :: "double \<Rightarrow> int" where
  "int64_of_double d =
     (case trunc_double d of
        Some t \<Rightarrow> if - (2 ^ 63) \<le> t \<and> t < 2 ^ 63 then t else - (2 ^ 63)
      | None \<Rightarrow> - (2 ^ 63))"

definition uint64_of_double :: "double \<Rightarrow> int" where
  "uint64_of_double d =
     (case trunc_double d of
        Some t \<Rightarrow> if 0 \<le> t \<and> t < 2 ^ 64 then t else 2 ^ 63
      | None \<Rightarrow> 2 ^ 63)"

text \<open>The comparison \<^verbatim>\<open>==\<close> on doubles: a NaN equals nothing, the two zeros are equal.\<close>

definition double_eq :: "double \<Rightarrow> double \<Rightarrow> bool" where
  "double_eq x y =
     (case (x, y) of
        (Finite s m, Finite s' m') \<Rightarrow> m = m' \<and> (s = s' \<or> m = 0)
      | (Infinity s, Infinity s') \<Rightarrow> s = s'
      | _ \<Rightarrow> False)"

definition double_add :: "double \<Rightarrow> double \<Rightarrow> double" where
  "double_add x y =
     (case (x, y) of
        (Finite s m, Finite s' m') \<Rightarrow>
          (let q = (if s then - m else m) + (if s' then - m' else m')
           in if q = 0 then Finite (s \<and> s') 0 else round_signed q)
      | (Finite s m, Infinity s') \<Rightarrow> Infinity s'
      | (Infinity s, Finite s' m') \<Rightarrow> Infinity s
      | (Infinity s, Infinity s') \<Rightarrow> (if s = s' then Infinity s else NaN)
      | _ \<Rightarrow> NaN)"

definition double_mul :: "double \<Rightarrow> double \<Rightarrow> double" where
  "double_mul x y =
     (case (x, y) of
        (Finite s m, Finite s' m') \<Rightarrow> round_double (s \<noteq> s') (m * m')
      | (Finite s m, Infinity s') \<Rightarrow> (if m = 0 then NaN else Infinity (s \<noteq> s'))
      | (Infinity s, Finite s' m') \<Rightarrow> (if m' = 0 then NaN else Infinity (s \<noteq> s'))
      | (Infinity s, Infinity s') \<Rightarrow> Infinity (s \<noteq> s')
      | _ \<Rightarrow> NaN)"

definition double_div :: "double \<Rightarrow> double \<Rightarrow> double" where
  "double_div x y =
     (case (x, y) of
        (Finite s m, Finite s' m') \<Rightarrow>
          (if m' = 0 then (if m = 0 then NaN else Infinity (s \<noteq> s'))
           else round_double (s \<noteq> s') (m / m'))
      | (Finite s m, Infinity s') \<Rightarrow> Finite (s \<noteq> s') 0
      | (Infinity s, Finite s' m') \<Rightarrow> Infinity (s \<noteq> s')
      | _ \<Rightarrow> NaN)"

subsection \<open>Expressions\<close>

text \<open>
  Modelled from the spec: the node classes are declared outside the sources. Every node
  the source file builds is a constructor, with the fields its factory call passes. A
  variable node is identified by its node identity (two \<^verbatim>\<open>Var x("x", t)\<close> are different
  variables); the model makes the identity a number. A literal carries its type and its
  value; a call its result type, the intrinsic's name, the arguments and the call kind; a
  reduction its result type, the combiner, the sources, the iteration domain, the
  predicate and the value index. An iteration variable is opaque and only passed through.
\<close>

datatype CallType = Extern | PureExtern | Halide | Intrinsic | PureIntrinsic

datatype IterVar = IterVar string nat

datatype Expr =
    IntImm Type int
  | UIntImm Type int
  | FloatImm Type double
  | Variable Type string nat
  | Cast Type Expr
  | Broadcast Expr nat
  | Add Expr Expr
  | Sub Expr Expr
  | Mul Expr Expr
  | Div Expr Expr
  | Mod Expr Expr
  | Min_node Expr Expr
  | Max_node Expr Expr
  | EQ Expr Expr
  | NE Expr Expr
  | LT Expr Expr
  | LE Expr Expr
  | GT Expr Expr
  | GE Expr Expr
  | And Expr Expr
  | Or Expr Expr
  | Not_node Expr
  | Select Expr Expr Expr
  | Call Type string "Expr list" CallType
  | Reduce Type CommReducer "Expr list" "IterVar list" Expr nat
and CommReducer =
    CommReducerNode "Expr list" "Expr list" "Expr list" "Expr list"

text \<open>\<^verbatim>\<open>e.type()\<close>: an arithmetic node has the type of its first operand, a comparison
  or a logical node is a boolean of as many lanes, a broadcast widens the lanes.\<close>

primrec type_of :: "Expr \<Rightarrow> Type" where
  "type_of (IntImm t v) = t"
| "type_of (UIntImm t v) = t"
| "type_of (FloatImm t v) = t"
| "type_of (Variable t name ident) = t"
| "type_of (Cast t v) = t"
| "type_of (Broadcast v n) = Type (code (type_of v)) (bits (type_of v)) n"
| "type_of (Add a b) = type_of a"
| "type_of (Sub a b) = type_of a"
| "type_of (Mul a b) = type_of a"
| "type_of (Div a b) = type_of a"
| "type_of (Mod a b) = type_of a"
| "type_of (Min_node a b) = type_of a"
| "type_of (Max_node a b) = type_of a"
| "type_of (EQ a b) = Bool_type (lanes (type_of a))"
| "type_of (NE a b) = Bool_type (lanes (type_of a))"
| "type_of (LT a b) = Bool_type (lanes (type_of a))"
| "type_of (LE a b) = Bool_type (lanes (type_of a))"
| "type_of (GT a b) = Bool_type (lanes (type_of a))"
| "type_of (GE a b) = Bool_type (lanes (type_of a))"
| "type_of (And a b) = Bool_type (lanes (type_of a))"
| "type_of (Or a b) = Bool_type (lanes (type_of a))"
| "type_of (Not_node a) = Bool_type (lanes (type_of a))"
| "type_of (Select c a b) = type_of a"
| "type_of (Call t name args ct) = t"
| "type_of (Reduce t c src rdom cond vi) = t"

text \<open>\<^verbatim>\<open>e.as<IntImm>()\<close> and its siblings: the literal's value, or \<open>None\<close> for the null
  pointer.\<close>

definition as_IntImm :: "Expr \<Rightarrow> int option" where
  "as_IntImm e = (case e of IntImm t v \<Rightarrow> Some v | _ \<Rightarrow> None)"

definition as_UIntImm :: "Expr \<Rightarrow> int option" where
  "as_UIntImm e = (case e of UIntImm t v \<Rightarrow> Some v | _ \<Rightarrow> None)"

definition as_FloatImm :: "Expr \<Rightarrow> double option" where
  "as_FloatImm e = (case e of FloatImm t v \<Rightarrow> Some v | _ \<Rightarrow> None)"

definition is_literal :: "Expr \<Rightarrow> bool" where
  "is_literal e = (case e of IntImm t v \<Rightarrow> True | UIntImm t v \<Rightarrow> True
                    | FloatImm t v \<Rightarrow> True | _ \<Rightarrow> False)"

text \<open>
  Modelled from the spec: the literal factories are declared outside the sources. A
  literal's value is a fixed-width integer of its type's width ("literal-literal folds use
  fixed-width wraparound arithmetic") or a double; a value is converted "per targetType's
  kind and width", so the double of a float literal is narrowed to the width of its type.
\<close>

definition IntImm_make :: "Type \<Rightarrow> int \<Rightarrow> Expr" where
  "IntImm_make t v = IntImm t (signed_take_bit (bits t - 1) v)"

definition UIntImm_make :: "Type \<Rightarrow> int \<Rightarrow> Expr" where
  "UIntImm_make t v = UIntImm t (take_bit (bits t) v)"

definition FloatImm_make :: "Type \<Rightarrow> double \<Rightarrow> Expr" where
  "FloatImm_make t v = FloatImm t (narrow_double (bits t) v)"

text \<open>
  Modelled from the spec: \<^verbatim>\<open>make_const\<close> and \<^verbatim>\<open>make_zero\<close> are declared in the
  repository's header \<^verbatim>\<open>ir_operator.h\<close>, which is not among the sources. A value folds
  "into a new literal of targetType via native numeric conversion (truncation/widening
  per targetType's kind and width)"; for a vector type the scalar literal is broadcast to
  the lane count. The value is the template argument: an integer or a double.
\<close>

datatype host_value = HInt int | HDouble double

definition to_int64 :: "host_value \<Rightarrow> int" where
  "to_int64 h = (case h of HInt v \<Rightarrow> wrap64 v | HDouble d \<Rightarrow> int64_of_double d)"

definition to_uint64 :: "host_value \<Rightarrow> int" where
  "to_uint64 h = (case h of HInt v \<Rightarrow> take_bit 64 v | HDouble d \<Rightarrow> uint64_of_double d)"

definition to_double :: "host_value \<Rightarrow> double" where
  "to_double h = (case h of HInt v \<Rightarrow> double_of_int64 v | HDouble d \<Rightarrow> d)"

definition MakeConstScalar :: "Type \<Rightarrow> host_value \<Rightarrow> Expr" where
  "MakeConstScalar t v =
     (if is_int t then IntImm_make t (to_int64 v)
      else if is_uint t then UIntImm_make t (to_uint64 v)
      else FloatImm_make t (to_double v))"

definition make_const :: "Type \<Rightarrow> host_value \<Rightarrow> Expr" where
  "make_const t v =
     (if lanes t = 1 then MakeConstScalar t v
      else Broadcast (MakeConstScalar (element_of t) v) (lanes t))"

definition make_zero :: "Type \<Rightarrow> Expr" where
  "make_zero t = make_const t (HInt 0)"

subsection \<open>Casts and type promotion\<close>

datatype error = TypeMismatch | DivideByZero | UnsupportedOperand

text \<open>\<^verbatim>\<open>SimpleCast\<close>: "simple cast that only checks if type matches and cast".\<close>

definition SimpleCast :: "Type \<Rightarrow> Expr \<Rightarrow> Expr" where
  "SimpleCast t v = (if type_of v = t then v else Cast t v)"

text \<open>\<^verbatim>\<open>cast\<close>: the failing \<^verbatim>\<open>CHECK(value.type().lanes() == t.lanes())\<close> is the error.\<close>

definition cast :: "Type \<Rightarrow> Expr \<Rightarrow> error + Expr" where
  "cast t v =
     (if type_of v = t then Inr v
      else if lanes t = 1 then
        (case as_IntImm v of
           Some x \<Rightarrow> Inr (make_const t (HInt x))
         | None \<Rightarrow>
            (case as_FloatImm v of
               Some x \<Rightarrow> Inr (make_const t (HDouble x))
             | None \<Rightarrow> Inr (Cast t v)))
      else if lanes (type_of v) = 1 then
        (let vtype = element_of t;
             v' = (if type_of v \<noteq> vtype then
                     (case as_IntImm v of
                        Some x \<Rightarrow> make_const vtype (HInt x)
                      | None \<Rightarrow>
                         (case as_FloatImm v of
                            Some x \<Rightarrow> make_const vtype (HDouble x)
                          | None \<Rightarrow> Cast vtype v))
                   else v)
         in Inr (Broadcast v' (lanes t)))
      else if lanes (type_of v) = lanes t then Inr (Cast t v)
      else Inl TypeMismatch)"

text \<open>
  \<^verbatim>\<open>BinaryOpMatchTypes\<close> updates both operands through references; the model returns the
  pair. The failing \<^verbatim>\<open>CHECK\<close> on the lanes and the final \<^verbatim>\<open>LOG(FATAL)\<close> are the errors.
\<close>

definition BinaryOpMatchTypes :: "Expr \<Rightarrow> Expr \<Rightarrow> error + Expr \<times> Expr" where
  "BinaryOpMatchTypes lhs rhs =
     (if type_of lhs = type_of rhs then Inr (lhs, rhs)
      else
        let ltype = type_of lhs; rtype = type_of rhs
        in case (if lanes ltype = 1 \<and> lanes rtype \<noteq> 1 then
                   Inr (Broadcast lhs (lanes rtype), rhs)
                 else if lanes rtype = 1 \<and> lanes ltype \<noteq> 1 then
                   Inr (lhs, Broadcast rhs (lanes ltype))
                 else if lanes ltype = lanes rtype then Inr (lhs, rhs)
                 else Inl TypeMismatch) of
             Inl e \<Rightarrow> Inl e
           | Inr (lhs, rhs) \<Rightarrow>
              (let lt = type_of lhs; rt = type_of rhs
               in if lt = rt then Inr (lhs, rhs)
                  else if \<not> is_float lt \<and> is_float rt then
                    (case cast rt lhs of Inl e \<Rightarrow> Inl e | Inr l \<Rightarrow> Inr (l, rhs))
                  else if is_float lt \<and> \<not> is_float rt then
                    (case cast lt rhs of Inl e \<Rightarrow> Inl e | Inr r \<Rightarrow> Inr (lhs, r))
                  else if (is_int lt \<and> is_int rt) \<or> (is_uint lt \<and> is_uint rt) then
                    (if bits lt < bits rt then
                       (case cast rt lhs of Inl e \<Rightarrow> Inl e | Inr l \<Rightarrow> Inr (l, rhs))
                     else
                       (case cast lt rhs of Inl e \<Rightarrow> Inl e | Inr r \<Rightarrow> Inr (lhs, r)))
                  else if (is_int lt \<and> is_uint rt) \<or> (is_uint lt \<and> is_int rt) then
                    (let b = max (bits lt) (bits rt)
                     in Inr (SimpleCast (Int_type b (lanes lt)) lhs,
                             SimpleCast (Int_type b (lanes rt)) rhs))
                  else Inl TypeMismatch))"

subsection \<open>Power-of-two test\<close>

text \<open>
  \<^verbatim>\<open>ConstPowerHelper\<close> is a template over the literal's value type; the model takes the
  value as an integer. The output parameter \<^verbatim>\<open>int *shift\<close> is passed in and returned:
  it is untouched when the value is not positive. The \<^verbatim>\<open>while\<close> loop is the recursive
  function.
\<close>

function ConstPowerHelper_loop :: "int \<Rightarrow> int \<Rightarrow> bool \<times> int" where
  "ConstPowerHelper_loop val shift =
     (if val \<noteq> 0 then
        (if val AND 1 \<noteq> 0 then (val = 1, shift)
         else ConstPowerHelper_loop (drop_bit 1 val) (shift + 1))
      else (True, shift))"
  by pat_completeness auto
termination
proof (relation "measure (\<lambda>(val, shift). nat \<bar>val\<bar>)")
  show "wf (measure (\<lambda>(val, shift). nat \<bar>val\<bar>))"
    by simp
next
  fix val shift :: int
  assume "val \<noteq> 0" and "\<not> val AND 1 \<noteq> 0"
  then have "\<bar>val div 2\<bar> < \<bar>val\<bar>"
    by (simp add: and_one_eq) presburger
  then show "((drop_bit 1 val, shift + 1), (val, shift)) \<in> measure (\<lambda>(val, shift). nat \<bar>val\<bar>)"
    by (simp add: drop_bit_eq_div)
qed

declare ConstPowerHelper_loop.simps [simp del]

definition ConstPowerHelper :: "int \<Rightarrow> int \<Rightarrow> bool \<times> int" where
  "ConstPowerHelper val shift =
     (if val \<le> 0 then (False, shift) else ConstPowerHelper_loop val 0)"

definition is_const_power_of_two_integer :: "Expr \<Rightarrow> int \<Rightarrow> bool \<times> int" where
  "is_const_power_of_two_integer x shift =
     (case as_IntImm x of
        Some v \<Rightarrow> ConstPowerHelper v shift
      | None \<Rightarrow>
         (case as_UIntImm x of
            Some v \<Rightarrow> ConstPowerHelper v shift
          | None \<Rightarrow> (False, shift)))"

subsection \<open>Arithmetic operators\<close>

text \<open>
  \<^verbatim>\<open>TVM_ARITH_CONST_PROPAGATION\<close> promotes the operands, reads the four literal pointers
  and runs the body; where no rule of the body returns, the generic node is built. The
  tests \<^verbatim>\<open>p && p->value == k\<close> on a literal pointer are \<open>int_is\<close> and \<open>float_is\<close>.
\<close>

definition int_is :: "int option \<Rightarrow> int \<Rightarrow> bool" where
  "int_is p k = (p = Some k)"

definition float_is :: "double option \<Rightarrow> int \<Rightarrow> bool" where
  "float_is f k = (case f of Some x \<Rightarrow> double_eq x (double_of_int64 k) | None \<Rightarrow> False)"

definition wider :: "Type \<Rightarrow> Type \<Rightarrow> Type" where
  "wider ta tb = (if bits ta \<ge> bits tb then ta else tb)"

definition operator_add :: "Expr \<Rightarrow> Expr \<Rightarrow> error + Expr" where
  "operator_add a0 b0 =
     (case BinaryOpMatchTypes a0 b0 of
        Inl e \<Rightarrow> Inl e
      | Inr (a, b) \<Rightarrow>
         (let pa = as_IntImm a; pb = as_IntImm b;
              fa = as_FloatImm a; fb = as_FloatImm b;
              rtype = wider (type_of a) (type_of b)
          in if pa \<noteq> None \<and> pb \<noteq> None then
               Inr (IntImm_make rtype (add64 (the pa) (the pb)))
             else if int_is pa 0 then Inr (SimpleCast rtype b)
             else if int_is pb 0 then Inr (SimpleCast rtype a)
             else if fa \<noteq> None \<and> fb \<noteq> None then
               Inr (FloatImm_make rtype (double_add (the fa) (the fb)))
             else if float_is fa 0 then Inr (SimpleCast rtype b)
             else if float_is fb 0 then Inr (SimpleCast rtype a)
             else Inr (Add a b)))"

definition operator_mul :: "Expr \<Rightarrow> Expr \<Rightarrow> error + Expr" where
  "operator_mul a0 b0 =
     (case BinaryOpMatchTypes a0 b0 of
        Inl e \<Rightarrow> Inl e
      | Inr (a, b) \<Rightarrow>
         (let pa = as_IntImm a; pb = as_IntImm b;
              fa = as_FloatImm a; fb = as_FloatImm b;
              rtype = wider (type_of a) (type_of b)
          in if pa \<noteq> None \<and> pb \<noteq> None then
               Inr (IntImm_make rtype (mul64 (the pa) (the pb)))
             else if int_is pa 1 then Inr (SimpleCast rtype b)
             else if int_is pa 0 then Inr (SimpleCast rtype a)
             else if int_is pb 1 then Inr (SimpleCast rtype a)
             else if int_is pb 0 then Inr (SimpleCast rtype b)
             else if fa \<noteq> None \<and> fb \<noteq> None then
               Inr (FloatImm_make rtype (double_mul (the fa) (the fb)))
             else if float_is fa 1 then Inr (SimpleCast rtype b)
             else if float_is fa 0 then Inr (SimpleCast rtype a)
             else if float_is fb 1 then Inr (SimpleCast rtype a)
             else if float_is fb 0 then Inr (SimpleCast rtype b)
             else Inr (Mul a b)))"

text \<open>In the fold of \<^verbatim>\<open>operator/\<close> and \<^verbatim>\<open>operator%\<close> the dividend is not negative and the
  divisor is positive, where the truncating division of C++ is \<open>div\<close> and \<open>mod\<close>.\<close>

definition operator_div :: "Expr \<Rightarrow> Expr \<Rightarrow> error + Expr" where
  "operator_div a0 b0 =
     (case BinaryOpMatchTypes a0 b0 of
        Inl e \<Rightarrow> Inl e
      | Inr (a, b) \<Rightarrow>
         (let pa = as_IntImm a; pb = as_IntImm b;
              fa = as_FloatImm a; fb = as_FloatImm b;
              rtype = wider (type_of a) (type_of b)
          in if pa \<noteq> None \<and> pb \<noteq> None \<and> the pa \<ge> 0 \<and> the pb > 0 then
               Inr (IntImm_make rtype (the pa div the pb))
             else if int_is pa 0 then Inr (SimpleCast rtype a)
             else if int_is pb 1 then Inr (SimpleCast rtype a)
             else if int_is pb 0 then Inl DivideByZero
             else if fa \<noteq> None \<and> fb \<noteq> None \<and> \<not> float_is fb 0 then
               Inr (FloatImm_make rtype (double_div (the fa) (the fb)))
             else if float_is fa 0 then Inr (SimpleCast rtype a)
             else if float_is fb 1 then Inr (SimpleCast rtype a)
             else if float_is fb 0 then Inl DivideByZero
             else Inr (Div a b)))"

text \<open>
  \<^verbatim>\<open>TVM_INDEX_CONST_PROPAGATION\<close> reads the literal pointers and the types of the operands
  as they are given, runs the body only when both types are index types, and promotes
  afterwards.
\<close>

definition operator_mod :: "Expr \<Rightarrow> Expr \<Rightarrow> error + Expr" where
  "operator_mod a b =
     (let pa = as_IntImm a; pb = as_IntImm b;
          ta = type_of a; tb = type_of b;
          rtype = wider ta tb
      in if IsIndexType ta \<and> IsIndexType tb
            \<and> pa \<noteq> None \<and> pb \<noteq> None \<and> the pa \<ge> 0 \<and> the pb > 0 then
           Inr (IntImm_make rtype (the pa mod the pb))
         else if IsIndexType ta \<and> IsIndexType tb \<and> int_is pa 0 then
           Inr (SimpleCast rtype a)
         else if IsIndexType ta \<and> IsIndexType tb \<and> int_is pb 1 then
           Inr (make_zero rtype)
         else if IsIndexType ta \<and> IsIndexType tb \<and> int_is pb 0 then
           Inl DivideByZero
         else
           (case BinaryOpMatchTypes a b of
              Inl e \<Rightarrow> Inl e
            | Inr (a', b') \<Rightarrow> Inr (Mod a' b')))"

subsection \<open>Shifts and bitwise operators\<close>

definition operator_rshift :: "Expr \<Rightarrow> Expr \<Rightarrow> error + Expr" where
  "operator_rshift a b =
     (let pa = as_IntImm a; pb = as_IntImm b;
          ta = type_of a; tb = type_of b;
          rtype = wider ta tb
      in if IsIndexType ta \<and> IsIndexType tb \<and> pa \<noteq> None \<and> pb \<noteq> None then
           Inr (IntImm_make rtype (shr64 (the pa) (the pb)))
         else if IsIndexType ta \<and> IsIndexType tb \<and> int_is pb 0 then
           Inr (SimpleCast rtype a)
         else
           (case BinaryOpMatchTypes a b of
              Inl e \<Rightarrow> Inl e
            | Inr (a', b') \<Rightarrow>
               Inr (Call (type_of a') ''shift_right'' [a', b'] PureIntrinsic)))"

definition operator_lshift :: "Expr \<Rightarrow> Expr \<Rightarrow> error + Expr" where
  "operator_lshift a b =
     (let pa = as_IntImm a; pb = as_IntImm b;
          ta = type_of a; tb = type_of b;
          rtype = wider ta tb
      in if IsIndexType ta \<and> IsIndexType tb \<and> pa \<noteq> None \<and> pb \<noteq> None then
           Inr (IntImm_make rtype (shl64 (the pa) (the pb)))
         else if IsIndexType ta \<and> IsIndexType tb \<and> int_is pb 0 then
           Inr (SimpleCast rtype a)
         else
           (case BinaryOpMatchTypes a b of
              Inl e \<Rightarrow> Inl e
            | Inr (a', b') \<Rightarrow>
               Inr (Call (type_of a') ''shift_left'' [a', b'] PureIntrinsic)))"

definition operator_bitand :: "Expr \<Rightarrow> Expr \<Rightarrow> error + Expr" where
  "operator_bitand a b =
     (let pa = as_IntImm a; pb = as_IntImm b;
          ta = type_of a; tb = type_of b;
          rtype = wider ta tb
      in if IsIndexType ta \<and> IsIndexType tb \<and> pa \<noteq> None \<and> pb \<noteq> None then
           Inr (IntImm_make rtype (the pa AND the pb))
         else
           (case BinaryOpMatchTypes a b of
              Inl e \<Rightarrow> Inl e
            | Inr (a', b') \<Rightarrow>
               Inr (Call (type_of a') ''bitwise_and'' [a', b'] PureIntrinsic)))"

definition operator_bitor :: "Expr \<Rightarrow> Expr \<Rightarrow> error + Expr" where
  "operator_bitor a b =
     (let pa = as_IntImm a; pb = as_IntImm b;
          ta = type_of a; tb = type_of b;
          rtype = wider ta tb
      in if IsIndexType ta \<and> IsIndexType tb \<and> pa \<noteq> None \<and> pb \<noteq> None then
           Inr (IntImm_make rtype (the pa OR the pb))
         else
           (case BinaryOpMatchTypes a b of
              Inl e \<Rightarrow> Inl e
            | Inr (a', b') \<Rightarrow>
               Inr (Call (type_of a') ''bitwise_or'' [a', b'] PureIntrinsic)))"

definition operator_bitxor :: "Expr \<Rightarrow> Expr \<Rightarrow> error + Expr" where
  "operator_bitxor a b =
     (let pa = as_IntImm a; pb = as_IntImm b;
          ta = type_of a; tb = type_of b;
          rtype = wider ta tb
      in if IsIndexType ta \<and> IsIndexType tb \<and> pa \<noteq> None \<and> pb \<noteq> None then
           Inr (IntImm_make rtype (the pa XOR the pb))
         else
           (case BinaryOpMatchTypes a b of
              Inl e \<Rightarrow> Inl e
            | Inr (a', b') \<Rightarrow>
               Inr (Call (type_of a') ''bitwise_xor'' [a', b'] PureIntrinsic)))"

definition operator_bitnot :: "Expr \<Rightarrow> error + Expr" where
  "operator_bitnot a =
     (if is_int (type_of a) \<or> is_uint (type_of a) then
        Inr (Call (type_of a) ''bitwise_not'' [a] PureIntrinsic)
      else Inl UnsupportedOperand)"

subsection \<open>Reductions\<close>

text \<open>
  Modelled from the spec: the factories of the reduction node and of the commutative
  reducer and the type's extreme values are declared outside the sources. The reduction
  node has the type of the source the value index selects; the "type-maximum" and
  "type-minimum" are the largest and the smallest representable value of the type, for a
  vector type broadcast to its lanes.
\<close>

definition Reduce_make ::
  "CommReducer \<Rightarrow> Expr list \<Rightarrow> IterVar list \<Rightarrow> Expr \<Rightarrow> nat \<Rightarrow> Expr" where
  "Reduce_make combiner source axis condition value_index =
     Reduce (type_of (source ! value_index)) combiner source axis condition value_index"

definition max_float :: "nat \<Rightarrow> rat" where
  "max_float b =
     (if b = 16 then 65504
      else if b = 32 then (2 - pow2 (- 23)) * pow2 127
      else (2 - pow2 (- 52)) * pow2 1023)"

definition scalar_max :: "Type \<Rightarrow> Expr" where
  "scalar_max t =
     (if is_int t then IntImm t (2 ^ (bits t - 1) - 1)
      else if is_uint t then UIntImm t (2 ^ bits t - 1)
      else FloatImm t (Finite False (max_float (bits t))))"

definition scalar_min :: "Type \<Rightarrow> Expr" where
  "scalar_min t =
     (if is_int t then IntImm t (- (2 ^ (bits t - 1)))
      else if is_uint t then UIntImm t 0
      else FloatImm t (Finite True (max_float (bits t))))"

definition Type_max :: "Type \<Rightarrow> Expr" where
  "Type_max t =
     (if lanes t = 1 then scalar_max t
      else Broadcast (scalar_max (element_of t)) (lanes t))"

definition Type_min :: "Type \<Rightarrow> Expr" where
  "Type_min t =
     (if lanes t = 1 then scalar_min t
      else Broadcast (scalar_min (element_of t)) (lanes t))"

text \<open>
  The builders allocate the two formals \<^verbatim>\<open>Var x("x", source.type()), y("y", source.type())\<close>.
  The allocation is explicit: a builder takes the next unused node identity and returns
  the node with the next one after its two variables.
\<close>

definition sum_reduce :: "Expr \<Rightarrow> IterVar list \<Rightarrow> nat \<Rightarrow> Expr \<times> nat" where
  "sum_reduce source rdom fresh =
     (let x = Variable (type_of source) ''x'' fresh;
          y = Variable (type_of source) ''y'' (fresh + 1);
          result = Add x y;
          identity_element = make_zero (type_of source);
          combiner = CommReducerNode [x] [y] [result] [identity_element]
      in (Reduce_make combiner [source] rdom (make_const (Bool_type 1) (HInt 1)) 0,
          fresh + 2))"

definition max_reduce :: "Expr \<Rightarrow> IterVar list \<Rightarrow> nat \<Rightarrow> Expr \<times> nat" where
  "max_reduce source rdom fresh =
     (let x = Variable (type_of source) ''x'' fresh;
          y = Variable (type_of source) ''y'' (fresh + 1);
          result = Max_node x y;
          identity_element = Type_min (type_of source);
          combiner = CommReducerNode [x] [y] [result] [identity_element]
      in (Reduce_make combiner [source] rdom (make_const (Bool_type 1) (HInt 1)) 0,
          fresh + 2))"

definition min_reduce :: "Expr \<Rightarrow> IterVar list \<Rightarrow> nat \<Rightarrow> Expr \<times> nat" where
  "min_reduce source rdom fresh =
     (let x = Variable (type_of source) ''x'' fresh;
          y = Variable (type_of source) ''y'' (fresh + 1);
          result = Min_node x y;
          identity_element = Type_max (type_of source);
          combiner = CommReducerNode [x] [y] [result] [identity_element]
      in (Reduce_make combiner [source] rdom (make_const (Bool_type 1) (HInt 1)) 0,
          fresh + 2))"

definition prod_reduce :: "Expr \<Rightarrow> IterVar list \<Rightarrow> nat \<Rightarrow> Expr \<times> nat" where
  "prod_reduce source rdom fresh =
     (let x = Variable (type_of source) ''x'' fresh;
          y = Variable (type_of source) ''y'' (fresh + 1);
          result = Mul x y;
          identity_element = make_const (type_of source) (HInt 1);
          combiner = CommReducerNode [x] [y] [result] [identity_element]
      in (Reduce_make combiner [source] rdom (make_const (Bool_type 1) (HInt 1)) 0,
          fresh + 2))"

text \<open>The node identities of the variables of an expression.\<close>

primrec var_ids :: "Expr \<Rightarrow> nat set"
  and var_ids_reducer :: "CommReducer \<Rightarrow> nat set" where
  "var_ids (IntImm t v) = {}"
| "var_ids (UIntImm t v) = {}"
| "var_ids (FloatImm t v) = {}"
| "var_ids (Variable t name ident) = {ident}"
| "var_ids (Cast t v) = var_ids v"
| "var_ids (Broadcast v n) = var_ids v"
| "var_ids (Add a b) = var_ids a \<union> var_ids b"
| "var_ids (Sub a b) = var_ids a \<union> var_ids b"
| "var_ids (Mul a b) = var_ids a \<union> var_ids b"
| "var_ids (Div a b) = var_ids a \<union> var_ids b"
| "var_ids (Mod a b) = var_ids a \<union> var_ids b"
| "var_ids (Min_node a b) = var_ids a \<union> var_ids b"
| "var_ids (Max_node a b) = var_ids a \<union> var_ids b"
| "var_ids (EQ a b) = var_ids a \<union> var_ids b"
| "var_ids (NE a b) = var_ids a \<union> var_ids b"
| "var_ids (LT a b) = var_ids a \<union> var_ids b"
| "var_ids (LE a b) = var_ids a \<union> var_ids b"
| "var_ids (GT a b) = var_ids a \<union> var_ids b"
| "var_ids (GE a b) = var_ids a \<union> var_ids b"
| "var_ids (And a b) = var_ids a \<union> var_ids b"
| "var_ids (Or a b) = var_ids a \<union> var_ids b"
| "var_ids (Not_node a) = var_ids a"
| "var_ids (Select c a b) = var_ids c \<union> var_ids a \<union> var_ids b"
| "var_ids (Call t name args ct) = \<Union> (set (map var_ids args))"
| "var_ids (Reduce t c src rdom cond vi) =
     var_ids_reducer c \<union> \<Union> (set (map var_ids src)) \<union> var_ids cond"
| "var_ids_reducer (CommReducerNode l r res ident) =
     \<Union> (set (map var_ids l)) \<union> \<Union> (set (map var_ids r))
       \<union> \<Union> (set (map var_ids res)) \<union> \<Union> (set (map var_ids ident))"

section \<open>Properties\<close>

subsection \<open>Types of the built nodes\<close>

lemma type_of_IntImm_make [simp]: "type_of (IntImm_make t v) = t"
  by (simp add: IntImm_make_def)
lemma type_of_UIntImm_make [simp]: "type_of (UIntImm_make t v) = t"
  by (simp add: UIntImm_make_def)
lemma type_of_FloatImm_make [simp]: "type_of (FloatImm_make t v) = t"
  by (simp add: FloatImm_make_def)

lemma type_of_MakeConstScalar [simp]: "type_of (MakeConstScalar t v) = t"
  by (simp add: MakeConstScalar_def)

lemma type_of_make_const [simp]: "type_of (make_const t v) = t"
  by (cases t) (simp add: make_const_def element_of_def)

lemma type_of_SimpleCast [simp]: "type_of (SimpleCast t v) = t"
  by (simp add: SimpleCast_def)

lemma type_of_cast: "cast t v = Inr r \<Longrightarrow> type_of r = t"
  by (cases t) (auto simp: cast_def element_of_def Let_def split: if_splits option.splits)

lemma BinaryOpMatchTypes_same_type:
  "BinaryOpMatchTypes a b = Inr (a', b') \<Longrightarrow> type_of a' = type_of b'"
  by (auto simp: BinaryOpMatchTypes_def Let_def Int_type_def split: if_splits sum.splits dest!: type_of_cast)

lemma BinaryOpMatchTypes_equal:
  "type_of a = type_of b \<Longrightarrow> BinaryOpMatchTypes a b = Inr (a, b)"
  by (simp add: BinaryOpMatchTypes_def)

subsection \<open>Host conversions\<close>

text \<open>An integer of fewer than \<open>p\<close> bits is a value of the binary format with \<open>p\<close>
  significant bits: rounding returns it unchanged.\<close>

lemma bit_length_bound: "0 \<le> k \<Longrightarrow> n < 2 ^ nat k \<Longrightarrow> bit_length n \<le> k"
proof (induction n arbitrary: k rule: bit_length.induct)
  case (1 n)
  show ?case
  proof (cases "n \<le> 0")
    case True
    with 1(2) show ?thesis by (simp add: bit_length.simps [of n])
  next
    case False
    with 1(3) have "k \<noteq> 0" by (cases "k = 0") auto
    with 1(2) have k: "0 \<le> k - 1" "nat k = Suc (nat (k - 1))" by auto
    from 1(3) k have "n div 2 < 2 ^ nat (k - 1)" by simp
    from 1(1) [OF False k(1) this] False show ?thesis
      by (simp add: bit_length.simps [of n])
  qed
qed

lemma bit_length_1: "bit_length 1 = 1"
  by (simp add: bit_length.simps [of 1] bit_length.simps [of 0])

lemma round_half_even_int: "round_half_even (of_int n) = n"
  by (simp add: round_half_even_def)

lemma floor_log2_int_bound:
  assumes "0 < n" "0 \<le> k" "n < 2 ^ nat k"
  shows "floor_log2 (of_int n) \<le> k - 1"
proof -
  have "bit_length n \<le> k" using assms by (intro bit_length_bound) auto
  then show ?thesis
    by (simp add: floor_log2_def bit_length_1 Let_def)
qed

lemma round_float_exact:
  assumes n: "0 \<le> n" "n < 2 ^ nat p" and p: "1 \<le> p" "p \<le> emax"
  shows "round_float p emax s (of_int n) = Finite s (of_int n)"
proof (cases "n = 0")
  case True
  then show ?thesis by (simp add: round_float_def)
next
  case False
  with n have pos: "0 < n" by simp
  define e where "e = max (floor_log2 (of_int n)) (1 - emax)"
  have "floor_log2 (of_int n) \<le> p - 1"
    using pos n p by (intro floor_log2_int_bound) auto
  with p have e: "e \<le> p - 1" by (simp add: e_def)
  define j where "j = nat (p - 1 - e)"
  define u where "u = pow2 (e - (p - 1))"
  have u: "u = 1 / 2 ^ j"
  proof (cases "e = p - 1")
    case True
    then show ?thesis by (simp add: u_def pow2_def j_def)
  next
    case False
    with e have "e - (p - 1) < 0" by simp
    then show ?thesis by (simp add: u_def pow2_def j_def)
  qed
  have q: "of_int n / u = (of_int (n * 2 ^ j) :: rat)"
    by (simp add: u)
  have r: "of_int (round_half_even (of_int n / u)) * u = (of_int n :: rat)"
    unfolding q round_half_even_int by (simp add: u)
  have "(of_int n :: rat) < of_int (2 ^ nat p)"
    using n(2) by (simp only: of_int_less_iff)
  also have "\<dots> \<le> 2 ^ nat (emax + 1)"
    using p by (simp add: power_increasing)
  finally have small: "\<not> pow2 (emax + 1) \<le> (of_int n :: rat)"
    using p by (simp add: pow2_def not_le)
  from pos have nz: "(of_int n :: rat) \<noteq> 0" by simp
  show ?thesis
    using nz small r
    by (simp add: round_float_def Let_def e_def [symmetric] u_def [symmetric])
qed

lemma round_double_exact:
  "0 \<le> n \<Longrightarrow> n < 2 ^ 53 \<Longrightarrow> round_double s (of_int n) = Finite s (of_int n)"
  using round_float_exact [of n 53 1023 s] by (simp add: round_double_def)

lemma double_of_int64_exact:
  assumes "\<bar>x\<bar> < 2 ^ 53"
  shows "double_of_int64 x = Finite (x < 0) (of_int \<bar>x\<bar>)"
proof -
  have "round_double (x < 0) (of_int \<bar>x\<bar>) = Finite (x < 0) (of_int \<bar>x\<bar>)"
    using assms by (intro round_double_exact) auto
  then show ?thesis
    by (simp add: double_of_int64_def round_signed_def)
qed

lemma double_of_int64_0: "double_of_int64 0 = Finite False 0"
  using double_of_int64_exact [of 0] by simp

lemma double_of_int64_1: "double_of_int64 1 = Finite False 1"
  using double_of_int64_exact [of 1] by simp

lemma narrow_double_exact:
  assumes "0 \<le> n" "n < 2 ^ (if b = 16 then 11 else if b = 32 then 24 else 53)"
  shows "narrow_double b (Finite s (of_int n)) = Finite s (of_int n)"
proof -
  have "b = 16 \<Longrightarrow> round_float 11 15 s (of_int n) = Finite s (of_int n)"
    using assms by (intro round_float_exact) auto
  moreover have "b = 32 \<Longrightarrow> round_float 24 127 s (of_int n) = Finite s (of_int n)"
    using assms by (intro round_float_exact) auto
  ultimately show ?thesis by (simp add: narrow_double_def)
qed

lemma int64_of_double_int:
  assumes "\<bar>x\<bar> < 2 ^ 63"
  shows "int64_of_double (Finite (x < 0) (of_int \<bar>x\<bar>)) = x"
  using assms by (auto simp: int64_of_double_def trunc_double_def)

subsection \<open>Type promotion\<close>

text \<open>
  Claim C4. When one operand has the signed-int kind and the other the unsigned-int kind
  (in either order) and the lane counts are equal, promotion succeeds and returns both
  operands cast to the signed-int type whose width is the maximum of the two widths and
  whose lane count is the operands'. Both results have that type, which is signed and not
  unsigned; the unsigned operand is always wrapped in a cast node.
\<close>

theorem promote_int_uint_signed:
  assumes "(is_int (type_of a) \<and> is_uint (type_of b)) \<or> (is_uint (type_of a) \<and> is_int (type_of b))"
    and "lanes (type_of a) = lanes (type_of b)"
  shows "let T = Int_type (max (bits (type_of a)) (bits (type_of b))) (lanes (type_of a))
         in BinaryOpMatchTypes a b = Inr (SimpleCast T a, SimpleCast T b)
            \<and> type_of (SimpleCast T a) = T \<and> type_of (SimpleCast T b) = T
            \<and> is_int T \<and> \<not> is_uint T
            \<and> bits T = max (bits (type_of a)) (bits (type_of b))
            \<and> lanes T = lanes (type_of a) \<and> lanes T = lanes (type_of b)
            \<and> (is_uint (type_of a) \<longrightarrow> SimpleCast T a = Cast T a)
            \<and> (is_uint (type_of b) \<longrightarrow> SimpleCast T b = Cast T b)"
proof -
  obtain ca ba la where ta: "type_of a = Type ca ba la" by (cases "type_of a")
  obtain cb bb lb where tb: "type_of b = Type cb bb lb" by (cases "type_of b")
  from assms show ?thesis
    by (auto simp: ta tb BinaryOpMatchTypes_def Let_def Int_type_def is_int_def is_uint_def
        is_float_def SimpleCast_def)
qed

theorem promote_int_uint_signed_witness:
  "BinaryOpMatchTypes (Variable (Int_type 32 1) ''a'' 0) (Variable (UInt_type 32 1) ''b'' 1)
     = Inr (Variable (Int_type 32 1) ''a'' 0, Cast (Int_type 32 1) (Variable (UInt_type 32 1) ''b'' 1))
   \<and> BinaryOpMatchTypes (UIntImm (UInt_type 64 4) 7) (IntImm (Int_type 8 4) 5)
     = Inr (Cast (Int_type 64 4) (UIntImm (UInt_type 64 4) 7), Cast (Int_type 64 4) (IntImm (Int_type 8 4) 5))"
proof -
  have a: "is_int (type_of (Variable (Int_type 32 1) ''a'' 0)) \<and> is_uint (type_of (Variable (UInt_type 32 1) ''b'' 1))
        \<or> is_uint (type_of (Variable (Int_type 32 1) ''a'' 0)) \<and> is_int (type_of (Variable (UInt_type 32 1) ''b'' 1))"
    by (simp add: is_int_def is_uint_def Int_type_def UInt_type_def)
  have b: "lanes (type_of (Variable (Int_type 32 1) ''a'' 0)) = lanes (type_of (Variable (UInt_type 32 1) ''b'' 1))"
    by (simp add: Int_type_def UInt_type_def)
  have c: "is_int (type_of (UIntImm (UInt_type 64 4) 7)) \<and> is_uint (type_of (IntImm (Int_type 8 4) 5))
        \<or> is_uint (type_of (UIntImm (UInt_type 64 4) 7)) \<and> is_int (type_of (IntImm (Int_type 8 4) 5))"
    by (simp add: is_int_def is_uint_def Int_type_def UInt_type_def)
  have d: "lanes (type_of (UIntImm (UInt_type 64 4) 7)) = lanes (type_of (IntImm (Int_type 8 4) 5))"
    by (simp add: Int_type_def UInt_type_def)
  show ?thesis
    using promote_int_uint_signed [OF a b] promote_int_uint_signed [OF c d]
    by (simp add: Let_def SimpleCast_def Int_type_def UInt_type_def)
qed



lemma BinaryOpMatchTypes_broadcast_right:
  assumes "lanes (type_of b) = 1" "lanes (type_of a) \<noteq> 1"
  shows "BinaryOpMatchTypes a b = BinaryOpMatchTypes a (Broadcast b (lanes (type_of a)))"
  using assms by (auto simp: BinaryOpMatchTypes_def Let_def)






subsection \<open>Power-of-two test\<close>

lemma pow2_odd_iff: "odd ((2::int) ^ k) \<longleftrightarrow> k = 0"
  by (cases k) simp_all

lemma even_pos_pow2_iff:
  assumes "even (v::int)" "0 < v"
  shows "(\<exists>k. v div 2 = 2 ^ k) \<longleftrightarrow> (\<exists>k. v = 2 ^ k)"
proof
  assume "\<exists>k. v div 2 = 2 ^ k"
  then obtain k where "v div 2 = 2 ^ k" ..
  with assms have "v = 2 ^ Suc k" by auto
  then show "\<exists>k. v = 2 ^ k" ..
next
  assume "\<exists>k. v = 2 ^ k"
  then obtain k where k: "v = 2 ^ k" ..
  with assms have "k \<noteq> 0" by (auto simp: pow2_odd_iff)
  then obtain j where "k = Suc j" by (cases k) auto
  with k have "v div 2 = 2 ^ j" by simp
  then show "\<exists>k. v div 2 = 2 ^ k" ..
qed

lemma ConstPowerHelper_loop_fst:
  "0 < val \<Longrightarrow> fst (ConstPowerHelper_loop val shift) \<longleftrightarrow> (\<exists>k. val = 2 ^ k)"
proof (induction val shift rule: ConstPowerHelper_loop.induct)
  case (1 val shift)
  show ?case
  proof (cases "val AND 1 \<noteq> 0")
    case True
    then have odd: "odd val" by (simp add: and_one_eq mod_2_eq_odd)
    have "(\<exists>k. val = 2 ^ k) \<longleftrightarrow> val = 1"
    proof
      assume "\<exists>k. val = 2 ^ k"
      then obtain k where "val = 2 ^ k" ..
      with odd show "val = 1" by (simp add: pow2_odd_iff)
    next
      assume "val = 1"
      then have "val = 2 ^ 0" by simp
      then show "\<exists>k. val = 2 ^ k" ..
    qed
    with True 1(2) show ?thesis
      by (simp add: ConstPowerHelper_loop.simps [of val])
  next
    case False
    then have ev: "even val" by (simp add: and_one_eq mod_2_eq_odd)
    with 1(2) have pos: "0 < val div 2" by presburger
    have "fst (ConstPowerHelper_loop (drop_bit 1 val) (shift + 1)) \<longleftrightarrow> (\<exists>k. drop_bit 1 val = 2 ^ k)"
      using 1(1) [OF _ False] 1(2) pos by (simp add: drop_bit_eq_div)
    with False 1(2) ev show ?thesis
      by (simp add: ConstPowerHelper_loop.simps [of val] drop_bit_eq_div even_pos_pow2_iff)
  qed
qed

lemma ConstPowerHelper_loop_pow2:
  "ConstPowerHelper_loop (2 ^ k) shift = (True, shift + int k)"
proof (induction k arbitrary: shift)
  case 0
  show ?case by (simp add: ConstPowerHelper_loop.simps [of 1])
next
  case (Suc k)
  have "ConstPowerHelper_loop (2 ^ Suc k) shift = ConstPowerHelper_loop (2 ^ k) (shift + 1)"
    by (subst ConstPowerHelper_loop.simps) (simp add: and_one_eq drop_bit_eq_div)
  then show ?case by (simp add: Suc)
qed

lemma ConstPowerHelper_fst:
  "fst (ConstPowerHelper v s) \<longleftrightarrow> (\<exists>k. v = 2 ^ k)"
proof (cases "v \<le> 0")
  case True
  then have "\<not> (\<exists>k. v = 2 ^ k)"
  proof -
    have "\<And>k. (0::int) < 2 ^ k" by simp
    with True show ?thesis by (metis not_less)
  qed
  with True show ?thesis by (simp add: ConstPowerHelper_def)
next
  case False
  then show ?thesis by (simp add: ConstPowerHelper_def ConstPowerHelper_loop_fst)
qed

lemma ConstPowerHelper_pow2: "ConstPowerHelper (2 ^ k) s = (True, int k)"
  by (simp add: ConstPowerHelper_def ConstPowerHelper_loop_pow2 not_le)

lemma ConstPowerHelper_nonpos: "v \<le> 0 \<Longrightarrow> ConstPowerHelper v s = (False, s)"
  by (simp add: ConstPowerHelper_def)

text \<open>
  Claim C10. \<^verbatim>\<open>is_const_power_of_two_integer\<close> returns true exactly when the expression is
  a signed or an unsigned integer literal whose value is a power of two \<open>2^k\<close> (so at least
  1), and then the shift it stores is \<open>k\<close>. It returns false, leaving the shift as it was,
  for a literal whose value is not positive and for every expression that is not an
  integer literal.
\<close>

theorem is_const_power_of_two_integer_iff:
  "(fst (is_const_power_of_two_integer x s)
      \<longleftrightarrow> (\<exists>t v k. (x = IntImm t v \<or> x = UIntImm t v) \<and> v = 2 ^ k))
   \<and> (\<forall>t k. x = IntImm t (2 ^ k) \<or> x = UIntImm t (2 ^ k)
         \<longrightarrow> is_const_power_of_two_integer x s = (True, int k))
   \<and> (\<forall>t v. (x = IntImm t v \<or> x = UIntImm t v) \<and> v \<le> 0
         \<longrightarrow> is_const_power_of_two_integer x s = (False, s))
   \<and> (as_IntImm x = None \<and> as_UIntImm x = None
         \<longrightarrow> is_const_power_of_two_integer x s = (False, s))"
proof (intro conjI allI impI)
  show "fst (is_const_power_of_two_integer x s)
      \<longleftrightarrow> (\<exists>t v k. (x = IntImm t v \<or> x = UIntImm t v) \<and> v = 2 ^ k)"
    by (cases x) (auto simp: is_const_power_of_two_integer_def as_IntImm_def as_UIntImm_def
        ConstPowerHelper_fst)
next
  fix t k assume "x = IntImm t (2 ^ k) \<or> x = UIntImm t (2 ^ k)"
  then show "is_const_power_of_two_integer x s = (True, int k)"
    by (auto simp: is_const_power_of_two_integer_def as_IntImm_def as_UIntImm_def
        ConstPowerHelper_pow2)
next
  fix t v assume "(x = IntImm t v \<or> x = UIntImm t v) \<and> v \<le> 0"
  then show "is_const_power_of_two_integer x s = (False, s)"
    by (auto simp: is_const_power_of_two_integer_def as_IntImm_def as_UIntImm_def
        ConstPowerHelper_nonpos)
next
  assume "as_IntImm x = None \<and> as_UIntImm x = None"
  then show "is_const_power_of_two_integer x s = (False, s)"
    by (simp add: is_const_power_of_two_integer_def)
qed

theorem is_const_power_of_two_integer_witness:
  "is_const_power_of_two_integer (IntImm (Int_type 32 1) 8) 0 = (True, 3)
   \<and> is_const_power_of_two_integer (UIntImm (UInt_type 8 1) 1) 7 = (True, 0)
   \<and> is_const_power_of_two_integer (IntImm (Int_type 32 1) (- 4)) 7 = (False, 7)
   \<and> fst (is_const_power_of_two_integer (IntImm (Int_type 32 1) 12) 7) = False
   \<and> is_const_power_of_two_integer (FloatImm (Float_type 32 1) (Finite False 4)) 7 = (False, 7)"
proof -
  have a: "is_const_power_of_two_integer (IntImm (Int_type 32 1) (2 ^ 3)) 0 = (True, int 3)"
    using is_const_power_of_two_integer_iff [of "IntImm (Int_type 32 1) (2 ^ 3)" 0] by blast
  have b: "is_const_power_of_two_integer (UIntImm (UInt_type 8 1) (2 ^ 0)) 7 = (True, int 0)"
    using is_const_power_of_two_integer_iff [of "UIntImm (UInt_type 8 1) (2 ^ 0)" 7] by blast
  have c: "is_const_power_of_two_integer (IntImm (Int_type 32 1) (- 4)) 7 = (False, 7)"
    using is_const_power_of_two_integer_iff [of "IntImm (Int_type 32 1) (- 4)" 7] by simp
  have d: "is_const_power_of_two_integer (FloatImm (Float_type 32 1) (Finite False 4)) 7 = (False, 7)"
    using is_const_power_of_two_integer_iff [of "FloatImm (Float_type 32 1) (Finite False 4)" 7]
    by (simp add: as_IntImm_def as_UIntImm_def)
  have e: "fst (is_const_power_of_two_integer (IntImm (Int_type 32 1) 12) 7) = False"
    by (simp add: is_const_power_of_two_integer_def as_IntImm_def ConstPowerHelper_def
        ConstPowerHelper_loop.simps [of 12] ConstPowerHelper_loop.simps [of 6]
        ConstPowerHelper_loop.simps [of 3] and_one_eq drop_bit_eq_div)
  from a b c d e show ?thesis by simp
qed

subsection \<open>Casts of literals\<close>

lemma make_const_int_int:
  assumes "lanes t = 1" "is_int t" "bits t \<le> 64"
  shows "make_const t (HInt x) = IntImm t (signed_take_bit (bits t - 1) x)"
proof -
  from assms(3) have "min (bits t - 1) 63 = bits t - 1" by auto
  then have "signed_take_bit (bits t - 1) (signed_take_bit 63 x) = signed_take_bit (bits t - 1) x"
    by (simp add: signed_take_bit_signed_take_bit)
  with assms show ?thesis
    by (simp add: make_const_def MakeConstScalar_def IntImm_make_def to_int64_def wrap64_def)
qed

lemma make_const_int_uint:
  assumes "lanes t = 1" "is_uint t" "bits t \<le> 64"
  shows "make_const t (HInt x) = UIntImm t (take_bit (bits t) x)"
proof -
  from assms(2) have "\<not> is_int t" by (simp add: is_int_def is_uint_def)
  moreover from assms(3) have "min (bits t) 64 = bits t" by auto
  ultimately show ?thesis
    using assms
    by (simp add: make_const_def MakeConstScalar_def UIntImm_make_def to_uint64_def)
qed

lemma make_const_int_float:
  assumes "lanes t = 1" "is_float t"
    and "\<bar>x\<bar> < 2 ^ (if bits t = 16 then 11 else if bits t = 32 then 24 else 53)"
  shows "make_const t (HInt x) = FloatImm t (Finite (x < 0) (of_int \<bar>x\<bar>))"
proof -
  from assms(2) have k: "\<not> is_int t" "\<not> is_uint t"
    by (simp_all add: is_int_def is_uint_def is_float_def)
  have "(2::int) ^ (if bits t = 16 then 11 else if bits t = 32 then 24 else 53) \<le> 2 ^ 53"
    by simp
  with assms(3) have "\<bar>x\<bar> < 2 ^ 53" by linarith
  then have d: "double_of_int64 x = Finite (x < 0) (of_int \<bar>x\<bar>)"
    by (rule double_of_int64_exact)
  have "narrow_double (bits t) (Finite (x < 0) (of_int \<bar>x\<bar>)) = Finite (x < 0) (of_int \<bar>x\<bar>)"
    using assms(3) by (intro narrow_double_exact) auto
  with assms(1) k d show ?thesis
    by (simp add: make_const_def MakeConstScalar_def FloatImm_make_def to_double_def)
qed

lemma make_const_double_int:
  assumes "lanes t = 1" "is_int t" "0 \<le> m" "\<lfloor>m\<rfloor> < 2 ^ 63"
  shows "make_const t (HDouble (Finite s m)) =
           IntImm t (signed_take_bit (bits t - 1) (if s then - \<lfloor>m\<rfloor> else \<lfloor>m\<rfloor>))"
proof -
  define f where "f = \<lfloor>m\<rfloor>"
  define k where "k = (if s then - f else f)"
  from assms(3) have "0 \<le> f" by (simp add: f_def)
  moreover from assms(4) have "f < 2 ^ 63" by (simp only: f_def)
  ultimately have "- (2 ^ 63) \<le> k \<and> k < 2 ^ 63" by (auto simp: k_def)
  moreover have "trunc_double (Finite s m) = Some k"
    by (simp add: trunc_double_def k_def f_def)
  ultimately have "int64_of_double (Finite s m) = k"
    by (simp add: int64_of_double_def)
  then have "int64_of_double (Finite s m) = (if s then - \<lfloor>m\<rfloor> else \<lfloor>m\<rfloor>)"
    by (simp only: k_def f_def)
  with assms(1,2) show ?thesis
    by (simp add: make_const_def MakeConstScalar_def IntImm_make_def to_int64_def)
qed

lemma make_const_double_uint:
  assumes "lanes t = 1" "is_uint t" "0 \<le> m" "\<lfloor>m\<rfloor> < 2 ^ 64"
  shows "make_const t (HDouble (Finite False m)) = UIntImm t (take_bit (bits t) \<lfloor>m\<rfloor>)"
proof -
  from assms(2) have ni: "\<not> is_int t" by (simp add: is_int_def is_uint_def)
  from assms(3) have "0 \<le> \<lfloor>m\<rfloor>" by simp
  moreover have "trunc_double (Finite False m) = Some \<lfloor>m\<rfloor>"
    by (simp add: trunc_double_def)
  ultimately have "uint64_of_double (Finite False m) = \<lfloor>m\<rfloor>"
    using assms(4) by (simp only: uint64_of_double_def option.case if_True simp_thms)
  with assms(1,2) ni show ?thesis
    by (simp add: make_const_def MakeConstScalar_def UIntImm_make_def to_uint64_def)
qed

lemma make_const_double_float:
  assumes "lanes t = 1" "is_float t"
  shows "make_const t (HDouble y) = FloatImm t (narrow_double (bits t) y)"
    and "bits t = 64 \<Longrightarrow> make_const t (HDouble y) = FloatImm t y"
proof -
  from assms(2) have k: "\<not> is_int t" "\<not> is_uint t"
    by (simp_all add: is_int_def is_uint_def is_float_def)
  with assms(1) show e: "make_const t (HDouble y) = FloatImm t (narrow_double (bits t) y)"
    by (simp add: make_const_def MakeConstScalar_def FloatImm_make_def to_double_def)
  assume "bits t = 64"
  then show "make_const t (HDouble y) = FloatImm t y"
    unfolding e by (cases y) (simp_all add: narrow_double_def)
qed

lemma cast_round_trip:
  assumes "lanes t = 1" "is_float t" "is_int ti" "lanes ti = 1" "bits ti \<le> 64"
    and n: "signed_take_bit (bits ti - 1) x = x"
    and r: "\<bar>x\<bar> < 2 ^ (if bits t = 16 then 11 else if bits t = 32 then 24 else 53)"
  shows "cast t (IntImm ti x) = Inr (FloatImm t (Finite (x < 0) (of_int \<bar>x\<bar>)))"
    and "cast ti (FloatImm t (Finite (x < 0) (of_int \<bar>x\<bar>))) = Inr (IntImm ti x)"
proof -
  from assms(2,3) have ne: "ti \<noteq> t" by (auto simp: is_int_def is_float_def)
  from assms(1) ne show "cast t (IntImm ti x) = Inr (FloatImm t (Finite (x < 0) (of_int \<bar>x\<bar>)))"
    by (simp add: cast_def as_IntImm_def make_const_int_float [OF assms(1,2) r])
  have "(2::int) ^ (if bits t = 16 then 11 else if bits t = 32 then 24 else 53) \<le> 2 ^ 53"
    by simp
  moreover have "(2::int) ^ 53 \<le> 2 ^ 63" by simp
  ultimately have "\<bar>x\<bar> < 2 ^ 63" using r by linarith
  then have i: "int64_of_double (Finite (x < 0) (of_int \<bar>x\<bar>)) = x"
    by (rule int64_of_double_int)
  from assms(3,4) ne i n
  show "cast ti (FloatImm t (Finite (x < 0) (of_int \<bar>x\<bar>))) = Inr (IntImm ti x)"
    by (simp add: cast_def as_IntImm_def as_FloatImm_def make_const_def MakeConstScalar_def
        IntImm_make_def to_int64_def)
qed

text \<open>
  Claim C7. For a scalar target type, \<^verbatim>\<open>cast\<close> returns the value itself when it already
  has the target type, and otherwise folds a signed-int literal or a float literal into
  \<^verbatim>\<open>make_const\<close> of the target type and the literal's value: a literal of the target type
  whose value is the native conversion of the value. An integer value converts to a
  signed-int type by keeping the low bits of the type's width in two's complement, to an
  unsigned-int type by keeping the low bits, and to a float type exactly where it has no
  more bits than the type's significand. A double converts to an integer type by
  truncation towards zero and to a float type by narrowing to the type's width. So the
  cast of a signed-int literal that a float type holds exactly, cast back to its own type,
  is the literal again; in particular the literal 7 of type int32 casts to the literal 7.0
  of type float32, and that casts back to the literal 7 of type int32.
\<close>

theorem cast_literal_folds:
  assumes "lanes t = 1"
  shows "(type_of v = t \<longrightarrow> cast t v = Inr v)
       \<and> (type_of v \<noteq> t \<and> as_IntImm v = Some x \<longrightarrow> cast t v = Inr (make_const t (HInt x)))
       \<and> (type_of v \<noteq> t \<and> as_FloatImm v = Some y \<longrightarrow> cast t v = Inr (make_const t (HDouble y)))
       \<and> is_literal (make_const t h) \<and> type_of (make_const t h) = t
       \<and> (is_int t \<and> bits t \<le> 64 \<longrightarrow>
            make_const t (HInt x) = IntImm t (signed_take_bit (bits t - 1) x))
       \<and> (is_uint t \<and> bits t \<le> 64 \<longrightarrow>
            make_const t (HInt x) = UIntImm t (take_bit (bits t) x))
       \<and> (is_float t
            \<and> \<bar>x\<bar> < 2 ^ (if bits t = 16 then 11 else if bits t = 32 then 24 else 53) \<longrightarrow>
            make_const t (HInt x) = FloatImm t (Finite (x < 0) (of_int \<bar>x\<bar>)))
       \<and> (is_int t \<and> 0 \<le> m \<and> \<lfloor>m\<rfloor> < 2 ^ 63 \<longrightarrow>
            make_const t (HDouble (Finite s m)) =
              IntImm t (signed_take_bit (bits t - 1) (if s then - \<lfloor>m\<rfloor> else \<lfloor>m\<rfloor>)))
       \<and> (is_uint t \<and> 0 \<le> m \<and> \<lfloor>m\<rfloor> < 2 ^ 64 \<longrightarrow>
            make_const t (HDouble (Finite False m)) = UIntImm t (take_bit (bits t) \<lfloor>m\<rfloor>))
       \<and> (is_float t \<longrightarrow> make_const t (HDouble y) = FloatImm t (narrow_double (bits t) y))
       \<and> (is_float t \<and> bits t = 64 \<longrightarrow> make_const t (HDouble y) = FloatImm t y)
       \<and> (is_float t \<and> is_int ti \<and> lanes ti = 1 \<and> bits ti \<le> 64
            \<and> signed_take_bit (bits ti - 1) x = x
            \<and> \<bar>x\<bar> < 2 ^ (if bits t = 16 then 11 else if bits t = 32 then 24 else 53) \<longrightarrow>
            cast t (IntImm ti x) = Inr (FloatImm t (Finite (x < 0) (of_int \<bar>x\<bar>)))
          \<and> cast ti (FloatImm t (Finite (x < 0) (of_int \<bar>x\<bar>))) = Inr (IntImm ti x))"
proof (intro conjI impI)
  show "type_of v = t \<Longrightarrow> cast t v = Inr v"
    by (simp add: cast_def)
  have "as_IntImm v = Some x \<Longrightarrow> as_FloatImm v = None"
    by (cases v) (simp_all add: as_IntImm_def as_FloatImm_def)
  then show "type_of v \<noteq> t \<and> as_IntImm v = Some x \<Longrightarrow> cast t v = Inr (make_const t (HInt x))"
    using assms by (simp add: cast_def)
  have "as_FloatImm v = Some y \<Longrightarrow> as_IntImm v = None"
    by (cases v) (simp_all add: as_IntImm_def as_FloatImm_def)
  then show "type_of v \<noteq> t \<and> as_FloatImm v = Some y \<Longrightarrow>
      cast t v = Inr (make_const t (HDouble y))"
    using assms by (simp add: cast_def)
  show "is_literal (make_const t h)"
    using assms by (simp add: make_const_def MakeConstScalar_def is_literal_def IntImm_make_def
        UIntImm_make_def FloatImm_make_def)
  show "type_of (make_const t h) = t" by simp
  show "is_int t \<and> bits t \<le> 64 \<Longrightarrow>
      make_const t (HInt x) = IntImm t (signed_take_bit (bits t - 1) x)"
    using assms by (simp add: make_const_int_int)
  show "is_uint t \<and> bits t \<le> 64 \<Longrightarrow> make_const t (HInt x) = UIntImm t (take_bit (bits t) x)"
    using assms by (simp add: make_const_int_uint)
  show "is_float t \<and> \<bar>x\<bar> < 2 ^ (if bits t = 16 then 11 else if bits t = 32 then 24 else 53) \<Longrightarrow>
      make_const t (HInt x) = FloatImm t (Finite (x < 0) (of_int \<bar>x\<bar>))"
    using assms by (intro make_const_int_float) auto
  show "is_int t \<and> 0 \<le> m \<and> \<lfloor>m\<rfloor> < 2 ^ 63 \<Longrightarrow>
      make_const t (HDouble (Finite s m)) =
        IntImm t (signed_take_bit (bits t - 1) (if s then - \<lfloor>m\<rfloor> else \<lfloor>m\<rfloor>))"
    using assms by (intro make_const_double_int) auto
  show "is_uint t \<and> 0 \<le> m \<and> \<lfloor>m\<rfloor> < 2 ^ 64 \<Longrightarrow>
      make_const t (HDouble (Finite False m)) = UIntImm t (take_bit (bits t) \<lfloor>m\<rfloor>)"
    using assms by (intro make_const_double_uint) auto
  show "is_float t \<Longrightarrow> make_const t (HDouble y) = FloatImm t (narrow_double (bits t) y)"
    using assms by (rule make_const_double_float(1))
  show "is_float t \<and> bits t = 64 \<Longrightarrow> make_const t (HDouble y) = FloatImm t y"
    using assms by (intro make_const_double_float(2)) auto
next
  assume h: "is_float t \<and> is_int ti \<and> lanes ti = 1 \<and> bits ti \<le> 64
            \<and> signed_take_bit (bits ti - 1) x = x
            \<and> \<bar>x\<bar> < 2 ^ (if bits t = 16 then 11 else if bits t = 32 then 24 else 53)"
  then show "cast t (IntImm ti x) = Inr (FloatImm t (Finite (x < 0) (of_int \<bar>x\<bar>)))"
    using assms by (intro cast_round_trip(1)) auto
next
  assume h: "is_float t \<and> is_int ti \<and> lanes ti = 1 \<and> bits ti \<le> 64
            \<and> signed_take_bit (bits ti - 1) x = x
            \<and> \<bar>x\<bar> < 2 ^ (if bits t = 16 then 11 else if bits t = 32 then 24 else 53)"
  then show "cast ti (FloatImm t (Finite (x < 0) (of_int \<bar>x\<bar>))) = Inr (IntImm ti x)"
    using assms by (intro cast_round_trip(2)) auto
qed

lemma narrow_2049: "narrow_double 16 (Finite False 2049) = Finite False 2048"
  by code_simp

lemma floor_11_4: "\<lfloor>(11::rat) / 4\<rfloor> = 2"
  by (simp add: floor_eq_iff)

theorem cast_literal_folds_witness:
  "cast (Float_type 32 1) (IntImm (Int_type 32 1) 7) = Inr (FloatImm (Float_type 32 1) (Finite False 7))
   \<and> cast (Int_type 32 1) (FloatImm (Float_type 32 1) (Finite False 7)) = Inr (IntImm (Int_type 32 1) 7)
   \<and> cast (Int_type 32 1) (FloatImm (Float_type 64 1) (Finite True (11 / 4)))
        = Inr (IntImm (Int_type 32 1) (- 2))
   \<and> cast (UInt_type 8 1) (IntImm (Int_type 32 1) 300) = Inr (UIntImm (UInt_type 8 1) 44)
   \<and> cast (Int_type 8 1) (IntImm (Int_type 32 1) 200) = Inr (IntImm (Int_type 8 1) (- 56))
   \<and> cast (Float_type 16 1) (IntImm (Int_type 32 1) 2049)
        = Inr (FloatImm (Float_type 16 1) (Finite False 2048))"
proof -
  let ?f = "Float_type 32 1"
  let ?i = "Int_type 32 1"
  have l: "lanes ?f = 1" "lanes ?i = 1" "lanes (UInt_type 8 1) = 1" "lanes (Int_type 8 1) = 1"
    "lanes (Float_type 16 1) = 1"
    by (simp_all add: Float_type_def Int_type_def UInt_type_def)
  have a: "cast ?f (IntImm ?i 7) = Inr (FloatImm ?f (Finite False 7))
         \<and> cast ?i (FloatImm ?f (Finite False 7)) = Inr (IntImm ?i 7)"
    using cast_literal_folds [OF l(1), where x = 7 and ti = ?i]
    by (simp add: Float_type_def Int_type_def is_int_def is_float_def
        signed_take_bit_eq_take_bit_minus)
  have b: "cast ?i (FloatImm (Float_type 64 1) (Finite True (11 / 4))) = Inr (IntImm ?i (- 2))"
    using cast_literal_folds [OF l(2), where v = "FloatImm (Float_type 64 1) (Finite True (11 / 4))"
        and y = "Finite True (11 / 4)" and m = "11 / 4" and s = True] floor_11_4
    by (simp add: as_FloatImm_def Float_type_def Int_type_def is_int_def
        signed_take_bit_eq_take_bit_minus)
  have c: "cast (UInt_type 8 1) (IntImm ?i 300) = Inr (UIntImm (UInt_type 8 1) 44)"
    using cast_literal_folds [OF l(3), where v = "IntImm ?i 300" and x = 300]
    by (simp add: as_IntImm_def UInt_type_def Int_type_def is_uint_def)
  have d: "cast (Int_type 8 1) (IntImm ?i 200) = Inr (IntImm (Int_type 8 1) (- 56))"
    using cast_literal_folds [OF l(4), where v = "IntImm ?i 200" and x = 200]
    by (simp add: as_IntImm_def Int_type_def is_int_def signed_take_bit_eq_take_bit_minus)
  have "double_of_int64 2049 = Finite False 2049"
    using double_of_int64_exact [of 2049] by simp
  then have e: "cast (Float_type 16 1) (IntImm ?i 2049)
        = Inr (FloatImm (Float_type 16 1) (Finite False 2048))"
    using cast_literal_folds [OF l(5), where v = "IntImm ?i 2049" and x = 2049 and h = "HInt 2049"
        and y = "double_of_int64 2049"] narrow_2049
    by (simp add: as_IntImm_def Float_type_def Int_type_def is_int_def is_uint_def is_float_def
        make_const_def MakeConstScalar_def FloatImm_make_def to_double_def)
  from a b c d e show ?thesis by simp
qed

subsection \<open>Modulo on floats\<close>

lemma BinaryOpMatchTypes_error:
  "BinaryOpMatchTypes a b = Inl e \<Longrightarrow> e = TypeMismatch"
  by (auto simp: BinaryOpMatchTypes_def cast_def Let_def split: if_splits sum.splits option.splits)

text \<open>
  Claim C6. When both operands have a float type, \<^verbatim>\<open>operator%\<close> never folds: it promotes
  the operands and builds the generic modulo node on them, also when both are literals.
  Every result is a modulo node and no literal; with equal types the node is built on the
  operands as given; the only failure is the TypeMismatch of promotion, on different
  types. In particular \<open>5.5 % 2.0\<close> on float32 literals is the modulo node of the two.
\<close>

theorem mod_never_folds_float:
  assumes "is_float (type_of a)" and "is_float (type_of b)"
  shows "operator_mod a b =
           (case BinaryOpMatchTypes a b of Inl e \<Rightarrow> Inl e | Inr (a', b') \<Rightarrow> Inr (Mod a' b'))
       \<and> (type_of a = type_of b \<longrightarrow> operator_mod a b = Inr (Mod a b))
       \<and> (\<forall>r. operator_mod a b = Inr r \<longrightarrow> (\<exists>a' b'. r = Mod a' b') \<and> \<not> is_literal r)
       \<and> (\<forall>e. operator_mod a b = Inl e \<longrightarrow> e = TypeMismatch \<and> type_of a \<noteq> type_of b)"
proof -
  from assms have ni: "\<not> IsIndexType (type_of a)"
    by (simp add: IsIndexType_def is_float_def is_int_def)
  then have m: "operator_mod a b =
      (case BinaryOpMatchTypes a b of Inl e \<Rightarrow> Inl e | Inr (a', b') \<Rightarrow> Inr (Mod a' b'))"
    by (simp add: operator_mod_def Let_def)
  have eq: "type_of a = type_of b \<longrightarrow> operator_mod a b = Inr (Mod a b)"
    by (simp add: m BinaryOpMatchTypes_equal)
  have r: "\<forall>r. operator_mod a b = Inr r \<longrightarrow> (\<exists>a' b'. r = Mod a' b') \<and> \<not> is_literal r"
    by (auto simp: m is_literal_def split: sum.splits)
  have e: "\<forall>e. operator_mod a b = Inl e \<longrightarrow> e = TypeMismatch \<and> type_of a \<noteq> type_of b"
    using eq by (auto simp: m split: sum.splits dest: BinaryOpMatchTypes_error)
  from m eq r e show ?thesis by blast
qed

theorem mod_never_folds_float_witness:
  "operator_mod (FloatImm (Float_type 32 1) (Finite False (11 / 2)))
                (FloatImm (Float_type 32 1) (Finite False 2))
     = Inr (Mod (FloatImm (Float_type 32 1) (Finite False (11 / 2)))
                (FloatImm (Float_type 32 1) (Finite False 2)))"
proof -
  have "is_float (type_of (FloatImm (Float_type 32 1) (Finite False (11 / 2))))"
    and "is_float (type_of (FloatImm (Float_type 32 1) (Finite False 2)))"
    by (simp_all add: is_float_def Float_type_def)
  from mod_never_folds_float [OF this, THEN conjunct2, THEN conjunct1] show ?thesis by simp
qed

subsection \<open>Reduction builders\<close>

lemma true_literal: "make_const (Bool_type 1) (HInt 1) = UIntImm (Bool_type 1) 1"
  by (simp add: make_const_def MakeConstScalar_def Bool_type_def UInt_type_def is_int_def
      is_uint_def UIntImm_make_def to_uint64_def)

lemma var_ids_make_const [simp]: "var_ids (make_const t h) = {}"
  by (simp add: make_const_def MakeConstScalar_def IntImm_make_def UIntImm_make_def
      FloatImm_make_def)

lemma var_ids_make_zero [simp]: "var_ids (make_zero t) = {}"
  by (simp add: make_zero_def)

lemma var_ids_Type_max [simp]: "var_ids (Type_max t) = {}"
  by (simp add: Type_max_def scalar_max_def)

lemma var_ids_Type_min [simp]: "var_ids (Type_min t) = {}"
  by (simp add: Type_min_def scalar_min_def)

lemma identity_int:
  assumes "lanes t = 1" "is_int t"
  shows "make_zero t = IntImm t 0"
    and "2 \<le> bits t \<Longrightarrow> make_const t (HInt 1) = IntImm t 1"
    and "Type_max t = IntImm t (2 ^ (bits t - 1) - 1)"
    and "Type_min t = IntImm t (- (2 ^ (bits t - 1)))"
proof -
  show "make_zero t = IntImm t 0"
    using assms by (simp add: make_zero_def make_const_def MakeConstScalar_def IntImm_make_def
        to_int64_def wrap64_def)
  show "Type_max t = IntImm t (2 ^ (bits t - 1) - 1)"
    using assms by (simp add: Type_max_def scalar_max_def)
  show "Type_min t = IntImm t (- (2 ^ (bits t - 1)))"
    using assms by (simp add: Type_min_def scalar_min_def)
  assume "2 \<le> bits t"
  then obtain k where k: "bits t - 1 = Suc k" by (cases "bits t - 1") auto
  have "signed_take_bit (Suc k) (1::int) = 1"
    by (simp add: signed_take_bit_Suc)
  with assms k show "make_const t (HInt 1) = IntImm t 1"
    by (simp add: make_const_def MakeConstScalar_def IntImm_make_def to_int64_def wrap64_def)
qed

lemma identity_uint:
  assumes "lanes t = 1" "is_uint t"
  shows "make_zero t = UIntImm t 0"
    and "1 \<le> bits t \<Longrightarrow> make_const t (HInt 1) = UIntImm t 1"
    and "Type_max t = UIntImm t (2 ^ bits t - 1)"
    and "Type_min t = UIntImm t 0"
proof -
  from assms have ni: "\<not> is_int t" by (simp add: is_int_def is_uint_def)
  show "make_zero t = UIntImm t 0"
    using assms ni by (simp add: make_zero_def make_const_def MakeConstScalar_def UIntImm_make_def
        to_uint64_def)
  show "Type_max t = UIntImm t (2 ^ bits t - 1)"
    using assms ni by (simp add: Type_max_def scalar_max_def)
  show "Type_min t = UIntImm t 0"
    using assms ni by (simp add: Type_min_def scalar_min_def)
  assume "1 \<le> bits t"
  then obtain k where k: "bits t = Suc k" by (cases "bits t") auto
  with assms ni show "make_const t (HInt 1) = UIntImm t 1"
    by (simp add: make_const_def MakeConstScalar_def UIntImm_make_def to_uint64_def take_bit_Suc)
qed

lemma identity_float:
  assumes "lanes t = 1" "is_float t"
  shows "make_zero t = FloatImm t (Finite False 0)"
    and "make_const t (HInt 1) = FloatImm t (Finite False 1)"
    and "Type_max t = FloatImm t (Finite False (max_float (bits t)))"
    and "Type_min t = FloatImm t (Finite True (max_float (bits t)))"
  using assms narrow_double_exact [of 0 "bits t" False] narrow_double_exact [of 1 "bits t" False]
  by (simp_all add: make_zero_def make_const_def MakeConstScalar_def FloatImm_make_def
      to_double_def double_of_int64_0 double_of_int64_1 Type_max_def Type_min_def
      scalar_max_def scalar_min_def is_int_def is_uint_def is_float_def)

text \<open>
  Claim C5. For every source expression, every iteration domain (the empty one included)
  and every allocation state, each of the builders sum, prod, min and max returns a
  reduction node of the source's type over the one source and the given domain, with the
  boolean literal true as predicate and value index 0. Its combiner has the two newly
  allocated formals \<open>x\<close> and \<open>y\<close> of the source's type, two different variables that do
  not occur in a source whose variables were allocated earlier, the combining node on the
  two formals, and as identity element \<^verbatim>\<open>make_zero\<close> of the type for sum,
  \<^verbatim>\<open>make_const\<close> of the type and 1 for prod, the type's maximum for min and the type's
  minimum for max, each of the source's type. For a scalar type these are the literals 0
  and 1 and the extreme values of the kind.
\<close>

theorem reduction_builders:
  "(let t = type_of source;
        x = Variable t ''x'' n;
        y = Variable t ''y'' (n + 1);
        true_literal = UIntImm (Bool_type 1) 1
    in sum_reduce source rdom n =
         (Reduce t (CommReducerNode [x] [y] [Add x y] [make_zero t]) [source] rdom true_literal 0,
          n + 2)
     \<and> prod_reduce source rdom n =
         (Reduce t (CommReducerNode [x] [y] [Mul x y] [make_const t (HInt 1)]) [source] rdom
            true_literal 0,
          n + 2)
     \<and> min_reduce source rdom n =
         (Reduce t (CommReducerNode [x] [y] [Min_node x y] [Type_max t]) [source] rdom
            true_literal 0,
          n + 2)
     \<and> max_reduce source rdom n =
         (Reduce t (CommReducerNode [x] [y] [Max_node x y] [Type_min t]) [source] rdom
            true_literal 0,
          n + 2)
     \<and> x \<noteq> y \<and> type_of x = t \<and> type_of y = t
     \<and> type_of (make_zero t) = t \<and> type_of (make_const t (HInt 1)) = t
     \<and> type_of (Type_max t) = t \<and> type_of (Type_min t) = t
     \<and> ((\<forall>i \<in> var_ids source. i < n) \<longrightarrow>
           n \<notin> var_ids source \<and> n + 1 \<notin> var_ids source
         \<and> (\<forall>i \<in> var_ids (fst (sum_reduce source rdom n)). i < n + 2)
         \<and> (\<forall>i \<in> var_ids (fst (prod_reduce source rdom n)). i < n + 2)
         \<and> (\<forall>i \<in> var_ids (fst (min_reduce source rdom n)). i < n + 2)
         \<and> (\<forall>i \<in> var_ids (fst (max_reduce source rdom n)). i < n + 2))
     \<and> (lanes t = 1 \<and> is_int t \<longrightarrow>
           make_zero t = IntImm t 0
         \<and> (2 \<le> bits t \<longrightarrow> make_const t (HInt 1) = IntImm t 1)
         \<and> Type_max t = IntImm t (2 ^ (bits t - 1) - 1)
         \<and> Type_min t = IntImm t (- (2 ^ (bits t - 1))))
     \<and> (lanes t = 1 \<and> is_uint t \<longrightarrow>
           make_zero t = UIntImm t 0
         \<and> (1 \<le> bits t \<longrightarrow> make_const t (HInt 1) = UIntImm t 1)
         \<and> Type_max t = UIntImm t (2 ^ bits t - 1)
         \<and> Type_min t = UIntImm t 0)
     \<and> (lanes t = 1 \<and> is_float t \<longrightarrow>
           make_zero t = FloatImm t (Finite False 0)
         \<and> make_const t (HInt 1) = FloatImm t (Finite False 1)
         \<and> Type_max t = FloatImm t (Finite False (max_float (bits t)))
         \<and> Type_min t = FloatImm t (Finite True (max_float (bits t)))))"
proof -
  have builders:
    "sum_reduce source rdom n =
       (Reduce (type_of source)
          (CommReducerNode [Variable (type_of source) ''x'' n] [Variable (type_of source) ''y'' (n + 1)]
             [Add (Variable (type_of source) ''x'' n) (Variable (type_of source) ''y'' (n + 1))]
             [make_zero (type_of source)])
          [source] rdom (UIntImm (Bool_type 1) 1) 0, n + 2)"
    "prod_reduce source rdom n =
       (Reduce (type_of source)
          (CommReducerNode [Variable (type_of source) ''x'' n] [Variable (type_of source) ''y'' (n + 1)]
             [Mul (Variable (type_of source) ''x'' n) (Variable (type_of source) ''y'' (n + 1))]
             [make_const (type_of source) (HInt 1)])
          [source] rdom (UIntImm (Bool_type 1) 1) 0, n + 2)"
    "min_reduce source rdom n =
       (Reduce (type_of source)
          (CommReducerNode [Variable (type_of source) ''x'' n] [Variable (type_of source) ''y'' (n + 1)]
             [Min_node (Variable (type_of source) ''x'' n) (Variable (type_of source) ''y'' (n + 1))]
             [Type_max (type_of source)])
          [source] rdom (UIntImm (Bool_type 1) 1) 0, n + 2)"
    "max_reduce source rdom n =
       (Reduce (type_of source)
          (CommReducerNode [Variable (type_of source) ''x'' n] [Variable (type_of source) ''y'' (n + 1)]
             [Max_node (Variable (type_of source) ''x'' n) (Variable (type_of source) ''y'' (n + 1))]
             [Type_min (type_of source)])
          [source] rdom (UIntImm (Bool_type 1) 1) 0, n + 2)"
    using true_literal
    by (simp_all add: sum_reduce_def prod_reduce_def min_reduce_def max_reduce_def Let_def
        Reduce_make_def)
  have types: "type_of (Type_max (type_of source)) = type_of source"
    "type_of (Type_min (type_of source)) = type_of source"
    by (cases "type_of source";
        simp add: Type_max_def Type_min_def scalar_max_def scalar_min_def element_of_def)+
  have fresh: "(\<forall>i \<in> var_ids source. i < n) \<longrightarrow>
           n \<notin> var_ids source \<and> n + 1 \<notin> var_ids source
         \<and> (\<forall>i \<in> var_ids (fst (sum_reduce source rdom n)). i < n + 2)
         \<and> (\<forall>i \<in> var_ids (fst (prod_reduce source rdom n)). i < n + 2)
         \<and> (\<forall>i \<in> var_ids (fst (min_reduce source rdom n)). i < n + 2)
         \<and> (\<forall>i \<in> var_ids (fst (max_reduce source rdom n)). i < n + 2)"
    unfolding builders by (auto simp: Bool_type_def)
  show ?thesis
    unfolding Let_def
  proof (intro conjI)
    show "(\<forall>i \<in> var_ids source. i < n) \<longrightarrow>
           n \<notin> var_ids source \<and> n + 1 \<notin> var_ids source
         \<and> (\<forall>i \<in> var_ids (fst (sum_reduce source rdom n)). i < n + 2)
         \<and> (\<forall>i \<in> var_ids (fst (prod_reduce source rdom n)). i < n + 2)
         \<and> (\<forall>i \<in> var_ids (fst (min_reduce source rdom n)). i < n + 2)
         \<and> (\<forall>i \<in> var_ids (fst (max_reduce source rdom n)). i < n + 2)"
      by (rule fresh)
  qed (use builders types identity_int [of "type_of source"] identity_uint [of "type_of source"]
      identity_float [of "type_of source"] in \<open>simp_all add: make_zero_def\<close>)
qed

theorem reduction_builders_witness:
  "sum_reduce (Variable (Float_type 32 1) ''a'' 0) [] 1 =
     (Reduce (Float_type 32 1)
        (CommReducerNode [Variable (Float_type 32 1) ''x'' 1] [Variable (Float_type 32 1) ''y'' 2]
           [Add (Variable (Float_type 32 1) ''x'' 1) (Variable (Float_type 32 1) ''y'' 2)]
           [FloatImm (Float_type 32 1) (Finite False 0)])
        [Variable (Float_type 32 1) ''a'' 0] [] (UIntImm (Bool_type 1) 1) 0, 3)
   \<and> prod_reduce (Variable (Int_type 32 1) ''a'' 0) [IterVar ''k'' 7] 1 =
     (Reduce (Int_type 32 1)
        (CommReducerNode [Variable (Int_type 32 1) ''x'' 1] [Variable (Int_type 32 1) ''y'' 2]
           [Mul (Variable (Int_type 32 1) ''x'' 1) (Variable (Int_type 32 1) ''y'' 2)]
           [IntImm (Int_type 32 1) 1])
        [Variable (Int_type 32 1) ''a'' 0] [IterVar ''k'' 7] (UIntImm (Bool_type 1) 1) 0, 3)
   \<and> min_reduce (Variable (Int_type 32 1) ''a'' 0) [] 1 =
     (Reduce (Int_type 32 1)
        (CommReducerNode [Variable (Int_type 32 1) ''x'' 1] [Variable (Int_type 32 1) ''y'' 2]
           [Min_node (Variable (Int_type 32 1) ''x'' 1) (Variable (Int_type 32 1) ''y'' 2)]
           [IntImm (Int_type 32 1) 2147483647])
        [Variable (Int_type 32 1) ''a'' 0] [] (UIntImm (Bool_type 1) 1) 0, 3)
   \<and> max_reduce (Variable (UInt_type 8 1) ''a'' 0) [] 1 =
     (Reduce (UInt_type 8 1)
        (CommReducerNode [Variable (UInt_type 8 1) ''x'' 1] [Variable (UInt_type 8 1) ''y'' 2]
           [Max_node (Variable (UInt_type 8 1) ''x'' 1) (Variable (UInt_type 8 1) ''y'' 2)]
           [UIntImm (UInt_type 8 1) 0])
        [Variable (UInt_type 8 1) ''a'' 0] [] (UIntImm (Bool_type 1) 1) 0, 3)
   \<and> 1 \<notin> var_ids (Variable (Float_type 32 1) ''a'' 0)
   \<and> 2 \<notin> var_ids (Variable (Float_type 32 1) ''a'' 0)"
proof -
  have a: "sum_reduce (Variable (Float_type 32 1) ''a'' 0) [] 1 =
     (Reduce (Float_type 32 1)
        (CommReducerNode [Variable (Float_type 32 1) ''x'' 1] [Variable (Float_type 32 1) ''y'' 2]
           [Add (Variable (Float_type 32 1) ''x'' 1) (Variable (Float_type 32 1) ''y'' 2)]
           [FloatImm (Float_type 32 1) (Finite False 0)])
        [Variable (Float_type 32 1) ''a'' 0] [] (UIntImm (Bool_type 1) 1) 0, 3)
     \<and> 1 \<notin> var_ids (Variable (Float_type 32 1) ''a'' 0)
     \<and> 2 \<notin> var_ids (Variable (Float_type 32 1) ''a'' 0)"
    using reduction_builders [of "Variable (Float_type 32 1) ''a'' 0" 1 "[]"]
    by (simp add: Let_def Float_type_def is_float_def is_int_def is_uint_def)
  have b: "prod_reduce (Variable (Int_type 32 1) ''a'' 0) [IterVar ''k'' 7] 1 =
     (Reduce (Int_type 32 1)
        (CommReducerNode [Variable (Int_type 32 1) ''x'' 1] [Variable (Int_type 32 1) ''y'' 2]
           [Mul (Variable (Int_type 32 1) ''x'' 1) (Variable (Int_type 32 1) ''y'' 2)]
           [IntImm (Int_type 32 1) 1])
        [Variable (Int_type 32 1) ''a'' 0] [IterVar ''k'' 7] (UIntImm (Bool_type 1) 1) 0, 3)"
    using reduction_builders [of "Variable (Int_type 32 1) ''a'' 0" 1 "[IterVar ''k'' 7]"]
    by (simp add: Let_def Int_type_def is_float_def is_int_def is_uint_def)
  have c: "min_reduce (Variable (Int_type 32 1) ''a'' 0) [] 1 =
     (Reduce (Int_type 32 1)
        (CommReducerNode [Variable (Int_type 32 1) ''x'' 1] [Variable (Int_type 32 1) ''y'' 2]
           [Min_node (Variable (Int_type 32 1) ''x'' 1) (Variable (Int_type 32 1) ''y'' 2)]
           [IntImm (Int_type 32 1) 2147483647])
        [Variable (Int_type 32 1) ''a'' 0] [] (UIntImm (Bool_type 1) 1) 0, 3)"
    using reduction_builders [of "Variable (Int_type 32 1) ''a'' 0" 1 "[]"]
    by (simp add: Let_def Int_type_def is_float_def is_int_def is_uint_def)
  have d: "max_reduce (Variable (UInt_type 8 1) ''a'' 0) [] 1 =
     (Reduce (UInt_type 8 1)
        (CommReducerNode [Variable (UInt_type 8 1) ''x'' 1] [Variable (UInt_type 8 1) ''y'' 2]
           [Max_node (Variable (UInt_type 8 1) ''x'' 1) (Variable (UInt_type 8 1) ''y'' 2)]
           [UIntImm (UInt_type 8 1) 0])
        [Variable (UInt_type 8 1) ''a'' 0] [] (UIntImm (Bool_type 1) 1) 0, 3)"
    using reduction_builders [of "Variable (UInt_type 8 1) ''a'' 0" 1 "[]"]
    by (simp add: Let_def UInt_type_def is_float_def is_int_def is_uint_def)
  from a b c d show ?thesis by simp
qed

subsection \<open>Division and modulo by a literal zero\<close>

lemma promoted_wider:
  "BinaryOpMatchTypes a b = Inr (a', b') \<Longrightarrow> wider (type_of a') (type_of b') = type_of a'"
  by (simp add: wider_def BinaryOpMatchTypes_same_type)

lemma SimpleCast_same [simp]: "SimpleCast (type_of v) v = v"
  by (simp add: SimpleCast_def)

lemma promoted_SimpleCast:
  "BinaryOpMatchTypes a b = Inr (a', b') \<Longrightarrow> SimpleCast (type_of a') b' = b'"
  by (simp add: SimpleCast_def BinaryOpMatchTypes_same_type)

lemma as_IntImm_not_Float: "as_IntImm e = Some v \<Longrightarrow> as_FloatImm e = None"
  by (cases e) (simp_all add: as_IntImm_def as_FloatImm_def)

lemma as_FloatImm_not_Int: "as_FloatImm e = Some v \<Longrightarrow> as_IntImm e = None"
  by (cases e) (simp_all add: as_IntImm_def as_FloatImm_def)

lemma float_is_Some: "float_is f k \<Longrightarrow> \<exists>v. f = Some v"
  by (cases f) (simp_all add: float_is_def)

lemma float_is_0_not_1: "float_is f 0 \<Longrightarrow> \<not> float_is f 1"
  by (cases f) (auto simp: float_is_def double_eq_def double_of_int64_0 double_of_int64_1
      split: double.splits)

text \<open>
  Claim C1, amended. Division fails with DivideByZero when, after promotion, the divisor
  is a signed-int literal of value 0, or a float literal equal to 0, and the dividend is
  not itself a literal zero; in particular for operands of one type. Modulo fails with
  DivideByZero when both operand types are index types, the divisor is a signed-int
  literal of value 0 and the dividend is not the signed-int literal 0. A divisor that is
  no signed-int and no float literal after promotion (an unsigned literal, a literal
  broadcast to a vector) is not checked: beside a dividend that is no literal zero the
  generic division node is built; and modulo on operands that are not both index-typed
  promotes and builds the generic modulo node. A literal zero dividend is left out.
\<close>

theorem divide_by_zero_literal:
  "(BinaryOpMatchTypes a b = Inr (a', b') \<and> as_IntImm b' = Some 0 \<and> as_IntImm a' \<noteq> Some 0
      \<longrightarrow> operator_div a b = Inl DivideByZero)
   \<and> (BinaryOpMatchTypes a b = Inr (a', b') \<and> float_is (as_FloatImm b') 0
        \<and> as_IntImm a' \<noteq> Some 0 \<and> \<not> float_is (as_FloatImm a') 0
      \<longrightarrow> operator_div a b = Inl DivideByZero)
   \<and> (type_of a = type_of b \<and> as_IntImm b = Some 0 \<and> as_IntImm a \<noteq> Some 0
      \<longrightarrow> operator_div a b = Inl DivideByZero)
   \<and> (IsIndexType (type_of a) \<and> IsIndexType (type_of b) \<and> as_IntImm b = Some 0
        \<and> as_IntImm a \<noteq> Some 0
      \<longrightarrow> operator_mod a b = Inl DivideByZero)
   \<and> (BinaryOpMatchTypes a b = Inr (a', b') \<and> as_IntImm b' = None \<and> as_FloatImm b' = None
        \<and> as_IntImm a' \<noteq> Some 0 \<and> \<not> float_is (as_FloatImm a') 0
      \<longrightarrow> operator_div a b = Inr (Div a' b'))
   \<and> (\<not> (IsIndexType (type_of a) \<and> IsIndexType (type_of b))
      \<longrightarrow> operator_mod a b =
            (case BinaryOpMatchTypes a b of Inl e \<Rightarrow> Inl e | Inr (a', b') \<Rightarrow> Inr (Mod a' b')))"
proof (intro conjI impI)
  assume h: "BinaryOpMatchTypes a b = Inr (a', b') \<and> as_IntImm b' = Some 0 \<and> as_IntImm a' \<noteq> Some 0"
  then show "operator_div a b = Inl DivideByZero"
    by (auto simp: operator_div_def Let_def int_is_def)
next
  assume h: "BinaryOpMatchTypes a b = Inr (a', b') \<and> float_is (as_FloatImm b') 0
        \<and> as_IntImm a' \<noteq> Some 0 \<and> \<not> float_is (as_FloatImm a') 0"
  then obtain v where v: "as_FloatImm b' = Some v" using float_is_Some by blast
  then have "as_IntImm b' = None" by (rule as_FloatImm_not_Int)
  with h float_is_0_not_1 [of "as_FloatImm b'"] show "operator_div a b = Inl DivideByZero"
    by (auto simp: operator_div_def Let_def int_is_def)
next
  assume h: "type_of a = type_of b \<and> as_IntImm b = Some 0 \<and> as_IntImm a \<noteq> Some 0"
  then show "operator_div a b = Inl DivideByZero"
    by (auto simp: operator_div_def Let_def int_is_def BinaryOpMatchTypes_equal)
next
  assume "IsIndexType (type_of a) \<and> IsIndexType (type_of b) \<and> as_IntImm b = Some 0
        \<and> as_IntImm a \<noteq> Some 0"
  then show "operator_mod a b = Inl DivideByZero"
    by (auto simp: operator_mod_def Let_def int_is_def)
next
  assume "BinaryOpMatchTypes a b = Inr (a', b') \<and> as_IntImm b' = None \<and> as_FloatImm b' = None
        \<and> as_IntImm a' \<noteq> Some 0 \<and> \<not> float_is (as_FloatImm a') 0"
  then show "operator_div a b = Inr (Div a' b')"
    by (auto simp: operator_div_def Let_def int_is_def float_is_def)
next
  assume "\<not> (IsIndexType (type_of a) \<and> IsIndexType (type_of b))"
  then show "operator_mod a b =
            (case BinaryOpMatchTypes a b of Inl e \<Rightarrow> Inl e | Inr (a', b') \<Rightarrow> Inr (Mod a' b'))"
    by (auto simp: operator_mod_def Let_def)
qed

theorem divide_by_zero_literal_witness:
  "operator_div (Variable (Int_type 32 1) ''x'' 0) (IntImm (Int_type 32 1) 0) = Inl DivideByZero
   \<and> operator_div (IntImm (Int_type 32 1) 5) (IntImm (Int_type 64 1) 0) = Inl DivideByZero
   \<and> operator_div (Variable (Float_type 32 1) ''x'' 0) (FloatImm (Float_type 32 1) (Finite True 0))
        = Inl DivideByZero
   \<and> operator_mod (Variable (Int_type 32 1) ''x'' 0) (IntImm (Int_type 64 1) 0) = Inl DivideByZero"
proof -
  let ?x = "Variable (Int_type 32 1) ''x'' 0"
  let ?z = "IntImm (Int_type 32 1) 0"
  have a: "operator_div ?x ?z = Inl DivideByZero"
    using divide_by_zero_literal [of ?x ?z]
    by (simp add: as_IntImm_def)
  have p: "BinaryOpMatchTypes (IntImm (Int_type 32 1) 5) (IntImm (Int_type 64 1) 0)
            = Inr (IntImm (Int_type 64 1) 5, IntImm (Int_type 64 1) 0)"
    by (simp add: BinaryOpMatchTypes_def Int_type_def Let_def is_float_def is_int_def cast_def
        as_IntImm_def make_const_def MakeConstScalar_def IntImm_make_def to_int64_def wrap64_def
        signed_take_bit_eq_take_bit_minus)
  have b: "operator_div (IntImm (Int_type 32 1) 5) (IntImm (Int_type 64 1) 0) = Inl DivideByZero"
    using divide_by_zero_literal [of "IntImm (Int_type 32 1) 5" "IntImm (Int_type 64 1) 0"
        "IntImm (Int_type 64 1) 5" "IntImm (Int_type 64 1) 0"] p
    by (simp add: as_IntImm_def)
  let ?f = "Variable (Float_type 32 1) ''x'' 0"
  let ?fz = "FloatImm (Float_type 32 1) (Finite True 0)"
  have q: "BinaryOpMatchTypes ?f ?fz = Inr (?f, ?fz)"
    by (simp add: BinaryOpMatchTypes_def)
  have c: "operator_div ?f ?fz = Inl DivideByZero"
    using divide_by_zero_literal [of ?f ?fz ?f ?fz] q
    by (simp add: as_IntImm_def as_FloatImm_def float_is_def double_eq_def double_of_int64_0)
  have d: "operator_mod ?x (IntImm (Int_type 64 1) 0) = Inl DivideByZero"
    using divide_by_zero_literal [of ?x "IntImm (Int_type 64 1) 0"]
    by (simp add: as_IntImm_def IsIndexType_def Int_type_def is_int_def)
  from a b c d show ?thesis by simp
qed

theorem divide_by_zero_literal_counterexample:
  "operator_div (Variable (UInt_type 32 1) ''x'' 0) (UIntImm (UInt_type 32 1) 0)
     = Inr (Div (Variable (UInt_type 32 1) ''x'' 0) (UIntImm (UInt_type 32 1) 0))
   \<and> operator_mod (Variable (Int_type 16 1) ''x'' 0) (IntImm (Int_type 16 1) 0)
     = Inr (Mod (Variable (Int_type 16 1) ''x'' 0) (IntImm (Int_type 16 1) 0))
   \<and> operator_div (Variable (Int_type 32 4) ''v'' 0) (IntImm (Int_type 32 1) 0)
     = Inr (Div (Variable (Int_type 32 4) ''v'' 0) (Broadcast (IntImm (Int_type 32 1) 0) 4))"
  by (simp add: operator_div_def operator_mod_def BinaryOpMatchTypes_def Let_def as_IntImm_def
      as_FloatImm_def int_is_def float_is_def IsIndexType_def Int_type_def UInt_type_def
      is_int_def wider_def)

text \<open>
  The rule for a literal zero dividend returns before the divisor is checked, so a literal
  zero divided by a literal zero is the dividend, for signed-int and for float literals.
\<close>

lemma zero_dividend_zero_divisor:
  "operator_div (IntImm (Int_type 32 1) 0) (IntImm (Int_type 32 1) 0)
     = Inr (IntImm (Int_type 32 1) 0)
   \<and> operator_mod (IntImm (Int_type 32 1) 0) (IntImm (Int_type 32 1) 0)
     = Inr (IntImm (Int_type 32 1) 0)
   \<and> operator_div (FloatImm (Float_type 64 1) (Finite False 0)) (FloatImm (Float_type 64 1) (Finite False 0))
     = Inr (FloatImm (Float_type 64 1) (Finite False 0))"
  by (simp add: operator_div_def operator_mod_def BinaryOpMatchTypes_def Let_def as_IntImm_def
      as_FloatImm_def int_is_def float_is_def IsIndexType_def Int_type_def Float_type_def
      is_int_def wider_def double_eq_def double_of_int64_0 SimpleCast_def)

subsection \<open>Folding division and modulo of literals\<close>

lemma double_div_6_2: "double_div (Finite True 6) (Finite False 2) = Finite True 3"
  using round_double_exact [of 3 True] by (simp add: double_div_def)

lemma narrow_double_3: "narrow_double 32 (Finite True 3) = Finite True 3"
  using narrow_double_exact [of 3 32 True] by simp

lemma promote_int_literals:
  assumes "is_int ta" "is_int tb" "lanes ta = 1" "lanes tb = 1"
  shows "BinaryOpMatchTypes (IntImm ta x) (IntImm tb y) =
           (if ta = tb then Inr (IntImm ta x, IntImm tb y)
            else if bits ta < bits tb then Inr (IntImm_make tb (wrap64 x), IntImm tb y)
            else Inr (IntImm ta x, IntImm_make ta (wrap64 y)))"
  using assms
  by (auto simp: BinaryOpMatchTypes_def Let_def is_int_def is_float_def cast_def as_IntImm_def
      make_const_def MakeConstScalar_def to_int64_def)

lemma div_int_literals:
  assumes "BinaryOpMatchTypes a b = Inr (a', b') \<and> as_IntImm a' = Some x \<and> as_IntImm b' = Some y"
  shows "operator_div a b =
        (if 0 \<le> x \<and> 0 < y then Inr (IntImm_make (type_of a') (x div y))
         else if x = 0 then Inr a'
         else if y = 1 then Inr a'
         else if y = 0 then Inl DivideByZero
         else Inr (Div a' b'))"
  using assms promoted_wider [of a b a' b'] as_IntImm_not_Float [of a' x]
    as_IntImm_not_Float [of b' y]
  by (auto simp: operator_div_def Let_def int_is_def float_is_def)

lemma mod_int_literals:
  assumes "IsIndexType (type_of a) \<and> IsIndexType (type_of b)
        \<and> as_IntImm a = Some x \<and> as_IntImm b = Some y"
  shows "operator_mod a b =
        (if 0 \<le> x \<and> 0 < y then Inr (IntImm_make (wider (type_of a) (type_of b)) (x mod y))
         else if x = 0 then Inr (SimpleCast (wider (type_of a) (type_of b)) a)
         else if y = 1 then Inr (make_zero (wider (type_of a) (type_of b)))
         else if y = 0 then Inl DivideByZero
         else case BinaryOpMatchTypes a b of
                Inl e \<Rightarrow> Inl e | Inr (a', b') \<Rightarrow> Inr (Mod a' b'))"
  using assms by (auto simp: operator_mod_def Let_def int_is_def)

text \<open>
  Claim C2, amended. For operands that promotion leaves as two signed-int literals,
  division returns a literal only if the dividend is at least 0 and the divisor greater
  than 0 (the folded quotient), or the dividend is 0, or the divisor is 1 (the identity
  rules return the dividend); a divisor 0 under a dividend that is not 0 fails, and every
  other pair, such as \<open>(-6) / 2\<close>, gives the generic division node. The same holds for
  modulo on two index-typed signed-int literals, where \<open>x % 1\<close> is the literal 0; modulo
  on operands that are not both index-typed never returns a literal. Two float literals
  are folded by division whenever the divisor is not zero, whatever their signs. Two
  well-typed scalar signed-int literals are promoted to two signed-int literals.
\<close>

theorem div_mod_literal_fold:
  "(BinaryOpMatchTypes a b = Inr (a', b') \<and> as_IntImm a' = Some x \<and> as_IntImm b' = Some y \<longrightarrow>
      (\<not> (x = 0 \<and> y = 0) \<longrightarrow>
       operator_div a b =
        (if 0 \<le> x \<and> 0 < y then Inr (IntImm_make (type_of a') (x div y))
         else if x = 0 then Inr a'
         else if y = 1 then Inr a'
         else if y = 0 then Inl DivideByZero
         else Inr (Div a' b')))
      \<and> (\<forall>r. operator_div a b = Inr r \<and> is_literal r \<longrightarrow> (0 \<le> x \<and> 0 < y) \<or> x = 0 \<or> y = 1))
   \<and> (IsIndexType (type_of a) \<and> IsIndexType (type_of b)
        \<and> as_IntImm a = Some x \<and> as_IntImm b = Some y \<longrightarrow>
      (\<not> (x = 0 \<and> y = 0) \<longrightarrow>
       operator_mod a b =
        (if 0 \<le> x \<and> 0 < y then Inr (IntImm_make (wider (type_of a) (type_of b)) (x mod y))
         else if x = 0 then Inr (SimpleCast (wider (type_of a) (type_of b)) a)
         else if y = 1 then Inr (make_zero (wider (type_of a) (type_of b)))
         else if y = 0 then Inl DivideByZero
         else case BinaryOpMatchTypes a b of
                Inl e \<Rightarrow> Inl e | Inr (a', b') \<Rightarrow> Inr (Mod a' b')))
      \<and> (\<forall>r. operator_mod a b = Inr r \<and> is_literal r \<longrightarrow> (0 \<le> x \<and> 0 < y) \<or> x = 0 \<or> y = 1))
   \<and> (\<not> (IsIndexType (type_of a) \<and> IsIndexType (type_of b)) \<longrightarrow>
        (\<forall>r. operator_mod a b = Inr r \<longrightarrow> \<not> is_literal r))
   \<and> (BinaryOpMatchTypes a b = Inr (a', b') \<and> as_FloatImm a' = Some u \<and> as_FloatImm b' = Some v
        \<and> \<not> double_eq v (double_of_int64 0) \<longrightarrow>
      operator_div a b = Inr (FloatImm_make (type_of a') (double_div u v)))
   \<and> (is_int ta \<and> is_int tb \<and> lanes ta = 1 \<and> lanes tb = 1 \<longrightarrow>
        BinaryOpMatchTypes (IntImm ta x) (IntImm tb y) =
           (if ta = tb then Inr (IntImm ta x, IntImm tb y)
            else if bits ta < bits tb then Inr (IntImm_make tb (wrap64 x), IntImm tb y)
            else Inr (IntImm ta x, IntImm_make ta (wrap64 y))))"
proof (intro conjI impI)
  assume h: "BinaryOpMatchTypes a b = Inr (a', b') \<and> as_IntImm a' = Some x \<and> as_IntImm b' = Some y"
  then show "operator_div a b =
        (if 0 \<le> x \<and> 0 < y then Inr (IntImm_make (type_of a') (x div y))
         else if x = 0 then Inr a'
         else if y = 1 then Inr a'
         else if y = 0 then Inl DivideByZero
         else Inr (Div a' b'))"
    by (rule div_int_literals)
next
  assume h: "BinaryOpMatchTypes a b = Inr (a', b') \<and> as_IntImm a' = Some x \<and> as_IntImm b' = Some y"
  show "\<forall>r. operator_div a b = Inr r \<and> is_literal r \<longrightarrow> (0 \<le> x \<and> 0 < y) \<or> x = 0 \<or> y = 1"
    unfolding div_int_literals [OF h] by (auto simp: is_literal_def)
next
  assume h: "IsIndexType (type_of a) \<and> IsIndexType (type_of b)
        \<and> as_IntImm a = Some x \<and> as_IntImm b = Some y"
  then show "operator_mod a b =
        (if 0 \<le> x \<and> 0 < y then Inr (IntImm_make (wider (type_of a) (type_of b)) (x mod y))
         else if x = 0 then Inr (SimpleCast (wider (type_of a) (type_of b)) a)
         else if y = 1 then Inr (make_zero (wider (type_of a) (type_of b)))
         else if y = 0 then Inl DivideByZero
         else case BinaryOpMatchTypes a b of
                Inl e \<Rightarrow> Inl e | Inr (a', b') \<Rightarrow> Inr (Mod a' b'))"
    by (rule mod_int_literals)
next
  assume h: "IsIndexType (type_of a) \<and> IsIndexType (type_of b)
        \<and> as_IntImm a = Some x \<and> as_IntImm b = Some y"
  show "\<forall>r. operator_mod a b = Inr r \<and> is_literal r \<longrightarrow> (0 \<le> x \<and> 0 < y) \<or> x = 0 \<or> y = 1"
    unfolding mod_int_literals [OF h] by (auto simp: is_literal_def split: sum.splits)
next
  assume "\<not> (IsIndexType (type_of a) \<and> IsIndexType (type_of b))"
  then have "operator_mod a b =
      (case BinaryOpMatchTypes a b of Inl e \<Rightarrow> Inl e | Inr (a', b') \<Rightarrow> Inr (Mod a' b'))"
    by (auto simp: operator_mod_def Let_def)
  then show "\<forall>r. operator_mod a b = Inr r \<longrightarrow> \<not> is_literal r"
    by (auto simp: is_literal_def split: sum.splits)
next
  assume h: "BinaryOpMatchTypes a b = Inr (a', b') \<and> as_FloatImm a' = Some u \<and> as_FloatImm b' = Some v
        \<and> \<not> double_eq v (double_of_int64 0)"
  then show "operator_div a b = Inr (FloatImm_make (type_of a') (double_div u v))"
    using promoted_wider [of a b a' b'] as_FloatImm_not_Int [of a' u] as_FloatImm_not_Int [of b' v]
    by (auto simp: operator_div_def Let_def int_is_def float_is_def)
next
  assume "is_int ta \<and> is_int tb \<and> lanes ta = 1 \<and> lanes tb = 1"
  then show "BinaryOpMatchTypes (IntImm ta x) (IntImm tb y) =
           (if ta = tb then Inr (IntImm ta x, IntImm tb y)
            else if bits ta < bits tb then Inr (IntImm_make tb (wrap64 x), IntImm tb y)
            else Inr (IntImm ta x, IntImm_make ta (wrap64 y)))"
    by (intro promote_int_literals) auto
qed

theorem div_mod_literal_fold_witness:
  "operator_div (IntImm (Int_type 32 1) (- 6)) (IntImm (Int_type 32 1) 2)
     = Inr (Div (IntImm (Int_type 32 1) (- 6)) (IntImm (Int_type 32 1) 2))
   \<and> operator_div (IntImm (Int_type 32 1) 7) (IntImm (Int_type 32 1) 2)
     = Inr (IntImm (Int_type 32 1) 3)
   \<and> operator_mod (IntImm (Int_type 32 1) (- 6)) (IntImm (Int_type 32 1) 4)
     = Inr (Mod (IntImm (Int_type 32 1) (- 6)) (IntImm (Int_type 32 1) 4))
   \<and> operator_mod (IntImm (Int_type 32 1) 7) (IntImm (Int_type 32 1) 4)
     = Inr (IntImm (Int_type 32 1) 3)"
proof -
  let ?t = "Int_type 32 1"
  have p: "BinaryOpMatchTypes (IntImm ?t u) (IntImm ?t v) = Inr (IntImm ?t u, IntImm ?t v)" for u v
    by (simp add: BinaryOpMatchTypes_def)
  have i: "IsIndexType (type_of (IntImm ?t u))" for u
    by (simp add: IsIndexType_def Int_type_def is_int_def)
  have a: "operator_div (IntImm ?t (- 6)) (IntImm ?t 2) = Inr (Div (IntImm ?t (- 6)) (IntImm ?t 2))"
    using div_mod_literal_fold [of "IntImm ?t (- 6)" "IntImm ?t 2" "IntImm ?t (- 6)" "IntImm ?t 2"
        "- 6" 2] p [of "- 6" 2]
    by (simp add: as_IntImm_def)
  have b: "operator_div (IntImm ?t 7) (IntImm ?t 2) = Inr (IntImm ?t 3)"
    using div_mod_literal_fold [of "IntImm ?t 7" "IntImm ?t 2" "IntImm ?t 7" "IntImm ?t 2" 7 2]
      p [of 7 2]
    by (simp add: as_IntImm_def IntImm_make_def Int_type_def signed_take_bit_eq_take_bit_minus)
  have c: "operator_mod (IntImm ?t (- 6)) (IntImm ?t 4) = Inr (Mod (IntImm ?t (- 6)) (IntImm ?t 4))"
    using div_mod_literal_fold [of "IntImm ?t (- 6)" "IntImm ?t 4" "IntImm ?t (- 6)" "IntImm ?t 4"
        "- 6" 4] p [of "- 6" 4] i [of "- 6"] i [of 4]
    by (simp add: as_IntImm_def)
  have d: "operator_mod (IntImm ?t 7) (IntImm ?t 4) = Inr (IntImm ?t 3)"
    using div_mod_literal_fold [of "IntImm ?t 7" "IntImm ?t 4" "IntImm ?t 7" "IntImm ?t 4" 7 4]
      i [of 7] i [of 4]
    by (simp add: as_IntImm_def IntImm_make_def Int_type_def wider_def
        signed_take_bit_eq_take_bit_minus)
  from a b c d show ?thesis by simp
qed

theorem div_mod_literal_fold_counterexample:
  "operator_div (IntImm (Int_type 32 1) (- 6)) (IntImm (Int_type 32 1) 1)
     = Inr (IntImm (Int_type 32 1) (- 6))
   \<and> operator_div (FloatImm (Float_type 32 1) (Finite True 6)) (FloatImm (Float_type 32 1) (Finite False 2))
     = Inr (FloatImm (Float_type 32 1) (Finite True 3))
   \<and> operator_mod (IntImm (Int_type 32 1) (- 6)) (IntImm (Int_type 32 1) 1)
     = Inr (IntImm (Int_type 32 1) 0)"
  by (simp add: operator_div_def operator_mod_def BinaryOpMatchTypes_def Let_def as_IntImm_def
      as_FloatImm_def int_is_def float_is_def IsIndexType_def Int_type_def Float_type_def
      is_int_def wider_def SimpleCast_def FloatImm_make_def double_div_6_2 narrow_double_3
      double_eq_def
      double_of_int64_0 make_zero_def make_const_def MakeConstScalar_def IntImm_make_def
      to_int64_def wrap64_def)

subsection \<open>Identity laws\<close>

lemma IntImm_make_normalized:
  assumes "as_IntImm e = Some v" "bits (type_of e) \<le> 64"
    "signed_take_bit (bits (type_of e) - 1) v = v"
  shows "IntImm_make (type_of e) (wrap64 v) = e" "IntImm_make (type_of e) v = e"
proof -
  from assms(1) have e: "e = IntImm (type_of e) v"
    by (cases e) (simp_all add: as_IntImm_def)
  have "min (bits (type_of e) - 1) 63 = bits (type_of e) - 1"
    using assms(2) by auto
  then have "signed_take_bit (bits (type_of e) - 1) (signed_take_bit 63 v) = v"
    using assms(3) by (simp add: signed_take_bit_signed_take_bit)
  then show "IntImm_make (type_of e) (wrap64 v) = e"
    using e by (simp add: IntImm_make_def wrap64_def)
  show "IntImm_make (type_of e) v = e"
    using e assms(3) by (simp add: IntImm_make_def)
qed

lemma as_IntImm_zero: "as_IntImm e = Some v \<Longrightarrow> e = IntImm (type_of e) v"
  by (cases e) (simp_all add: as_IntImm_def)

lemma cast_nonliteral:
  assumes "cast t v = Inr r" "as_IntImm v = None" "as_FloatImm v = None"
  shows "as_IntImm r = None \<and> as_FloatImm r = None"
  using assms
  by (auto simp: cast_def Let_def as_IntImm_def as_FloatImm_def split: if_splits)

lemma SimpleCast_nonliteral:
  assumes "as_IntImm v = None" "as_FloatImm v = None"
  shows "as_IntImm (SimpleCast t v) = None \<and> as_FloatImm (SimpleCast t v) = None"
  using assms by (simp add: SimpleCast_def as_IntImm_def as_FloatImm_def)

lemma promotion_keeps_nonliteral:
  assumes p: "BinaryOpMatchTypes a b = Inr (a', b')"
  shows "(as_IntImm a = None \<and> as_FloatImm a = None \<longrightarrow>
            as_IntImm a' = None \<and> as_FloatImm a' = None)
       \<and> (as_IntImm b = None \<and> as_FloatImm b = None \<longrightarrow>
            as_IntImm b' = None \<and> as_FloatImm b' = None)"
proof -
  have bc: "as_IntImm (Broadcast e n) = None \<and> as_FloatImm (Broadcast e n) = None" for e n
    by (simp add: as_IntImm_def as_FloatImm_def)
  show ?thesis
    using p
    by (auto simp: BinaryOpMatchTypes_def Let_def bc SimpleCast_nonliteral
        split: if_splits sum.splits dest: cast_nonliteral)
qed

lemma promotion_scalar_beside_vector:
  assumes "lanes (type_of a) \<noteq> 1" "lanes (type_of b) = 1"
    and p: "BinaryOpMatchTypes a b = Inr (a', b')"
  shows "as_IntImm b' = None \<and> as_FloatImm b' = None"
proof -
  have "BinaryOpMatchTypes a (Broadcast b (lanes (type_of a))) = Inr (a', b')"
    using BinaryOpMatchTypes_broadcast_right [OF assms(2,1)] p by simp
  from promotion_keeps_nonliteral [OF this] show ?thesis
    by (simp add: as_IntImm_def as_FloatImm_def)
qed

lemma generic_nodes:
  assumes p: "BinaryOpMatchTypes x z = Inr (x', z')"
    and "as_IntImm x' = None" "as_FloatImm x' = None" "as_IntImm z' = None" "as_FloatImm z' = None"
  shows "operator_add x z = Inr (Add x' z')"
    and "operator_mul x z = Inr (Mul x' z')"
    and "operator_div x z = Inr (Div x' z')"
  using assms
  by (simp_all add: operator_add_def operator_mul_def operator_div_def Let_def int_is_def
      float_is_def)

lemma double_eq_zero: "double_eq v (double_of_int64 0) \<Longrightarrow> \<exists>s. v = Finite s 0"
  by (cases v) (auto simp: double_eq_def double_of_int64_0)

lemma double_eq_one: "double_eq v (double_of_int64 1) \<Longrightarrow> v = Finite False 1"
  by (cases v) (auto simp: double_eq_def double_of_int64_1)

lemma as_FloatImm_eq: "as_FloatImm e = Some v \<Longrightarrow> e = FloatImm (type_of e) v"
  by (cases e) (simp_all add: as_FloatImm_def)

lemma narrow_double_zero: "narrow_double b (Finite s 0) = Finite s 0"
  by (simp add: narrow_double_def round_float_def)

lemma generic_symbolic:
  assumes "as_IntImm x = None" "as_FloatImm x = None" "as_IntImm z = None" "as_FloatImm z = None"
  shows "operator_add x z =
           (case BinaryOpMatchTypes x z of Inl e \<Rightarrow> Inl e | Inr (a, b) \<Rightarrow> Inr (Add a b))"
    and "operator_mul x z =
           (case BinaryOpMatchTypes x z of Inl e \<Rightarrow> Inl e | Inr (a, b) \<Rightarrow> Inr (Mul a b))"
    and "operator_div x z =
           (case BinaryOpMatchTypes x z of Inl e \<Rightarrow> Inl e | Inr (a, b) \<Rightarrow> Inr (Div a b))"
proof -
  consider e where "BinaryOpMatchTypes x z = Inl e"
    | x' z' where "BinaryOpMatchTypes x z = Inr (x', z')"
    by (cases "BinaryOpMatchTypes x z") auto
  then have "operator_add x z =
           (case BinaryOpMatchTypes x z of Inl e \<Rightarrow> Inl e | Inr (a, b) \<Rightarrow> Inr (Add a b))
    \<and> operator_mul x z =
           (case BinaryOpMatchTypes x z of Inl e \<Rightarrow> Inl e | Inr (a, b) \<Rightarrow> Inr (Mul a b))
    \<and> operator_div x z =
           (case BinaryOpMatchTypes x z of Inl e \<Rightarrow> Inl e | Inr (a, b) \<Rightarrow> Inr (Div a b))"
  proof cases
    case 1
    then show ?thesis by (simp add: operator_add_def operator_mul_def operator_div_def)
  next
    case 2
    from promotion_keeps_nonliteral [OF 2] assms
    have "as_IntImm x' = None" "as_FloatImm x' = None" "as_IntImm z' = None" "as_FloatImm z' = None"
      by simp_all
    from generic_nodes [OF 2 this] 2 show ?thesis by simp
  qed
  then show "operator_add x z =
           (case BinaryOpMatchTypes x z of Inl e \<Rightarrow> Inl e | Inr (a, b) \<Rightarrow> Inr (Add a b))"
    and "operator_mul x z =
           (case BinaryOpMatchTypes x z of Inl e \<Rightarrow> Inl e | Inr (a, b) \<Rightarrow> Inr (Mul a b))"
    and "operator_div x z =
           (case BinaryOpMatchTypes x z of Inl e \<Rightarrow> Inl e | Inr (a, b) \<Rightarrow> Inr (Div a b))"
    by simp_all
qed

lemma generic_vector:
  assumes "as_IntImm x = None" "as_FloatImm x = None"
    "lanes (type_of x) \<noteq> 1" "lanes (type_of z) = 1"
  shows "operator_add x z =
           (case BinaryOpMatchTypes x z of Inl e \<Rightarrow> Inl e | Inr (a, b) \<Rightarrow> Inr (Add a b))"
    and "operator_mul x z =
           (case BinaryOpMatchTypes x z of Inl e \<Rightarrow> Inl e | Inr (a, b) \<Rightarrow> Inr (Mul a b))"
    and "operator_div x z =
           (case BinaryOpMatchTypes x z of Inl e \<Rightarrow> Inl e | Inr (a, b) \<Rightarrow> Inr (Div a b))"
proof -
  consider e where "BinaryOpMatchTypes x z = Inl e"
    | x' z' where "BinaryOpMatchTypes x z = Inr (x', z')"
    by (cases "BinaryOpMatchTypes x z") auto
  then have "operator_add x z =
           (case BinaryOpMatchTypes x z of Inl e \<Rightarrow> Inl e | Inr (a, b) \<Rightarrow> Inr (Add a b))
    \<and> operator_mul x z =
           (case BinaryOpMatchTypes x z of Inl e \<Rightarrow> Inl e | Inr (a, b) \<Rightarrow> Inr (Mul a b))
    \<and> operator_div x z =
           (case BinaryOpMatchTypes x z of Inl e \<Rightarrow> Inl e | Inr (a, b) \<Rightarrow> Inr (Div a b))"
  proof cases
    case 1
    then show ?thesis by (simp add: operator_add_def operator_mul_def operator_div_def)
  next
    case 2
    from promotion_keeps_nonliteral [OF 2] assms
    have "as_IntImm x' = None" "as_FloatImm x' = None" by simp_all
    moreover from promotion_scalar_beside_vector [OF assms(3,4) 2]
    have "as_IntImm z' = None" "as_FloatImm z' = None" by simp_all
    ultimately show ?thesis using generic_nodes [OF 2] 2 by simp
  qed
  then show "operator_add x z =
           (case BinaryOpMatchTypes x z of Inl e \<Rightarrow> Inl e | Inr (a, b) \<Rightarrow> Inr (Add a b))"
    and "operator_mul x z =
           (case BinaryOpMatchTypes x z of Inl e \<Rightarrow> Inl e | Inr (a, b) \<Rightarrow> Inr (Mul a b))"
    and "operator_div x z =
           (case BinaryOpMatchTypes x z of Inl e \<Rightarrow> Inl e | Inr (a, b) \<Rightarrow> Inr (Div a b))"
    by simp_all
qed

lemma float_literal_zero:
  assumes p: "BinaryOpMatchTypes x z = Inr (x', z')"
    and u: "as_FloatImm x' = Some u" and v: "as_FloatImm z' = Some (Finite sz 0)"
    and r: "representable (bits (type_of x')) u"
  shows "operator_add x z =
           Inr (if u = Finite True 0 \<and> \<not> sz then FloatImm (type_of x') (Finite False 0) else x')"
    and "operator_mul x z =
           Inr (FloatImm (type_of x') (case u of Finite s m \<Rightarrow> Finite (s \<noteq> sz) 0 | _ \<Rightarrow> NaN))"
proof -
  note ni = as_FloatImm_not_Int [OF u] as_FloatImm_not_Int [OF v]
  note w = promoted_wider [OF p]
  from r have n: "narrow_double (bits (type_of x')) u = u"
    and f: "\<And>s m. u = Finite s m \<Longrightarrow> 0 \<le> m \<and> round_double s m = u"
    by (auto simp: representable_def)
  have x': "FloatImm (type_of x') u = x'" using as_FloatImm_eq [OF u] by simp
  have make: "FloatImm_make (type_of x') u = x'"
    using n x' by (simp add: FloatImm_make_def)
  have add: "operator_add x z = Inr (FloatImm_make (type_of x') (double_add u (Finite sz 0)))"
    using p u v ni w by (simp add: operator_add_def Let_def int_is_def)
  have mul: "operator_mul x z = Inr (FloatImm_make (type_of x') (double_mul u (Finite sz 0)))"
    using p u v ni w by (simp add: operator_mul_def Let_def int_is_def)
  have "double_add u (Finite sz 0) = (if u = Finite True 0 \<and> \<not> sz then Finite False 0 else u)"
  proof (cases u)
    case (Finite s m)
    with f have m: "0 \<le> m" "round_double s m = u" by auto
    show ?thesis
    proof (cases "m = 0")
      case True
      with Finite show ?thesis by (auto simp: double_add_def)
    next
      case False
      with m have "0 < m" by simp
      with Finite m show ?thesis
        by (auto simp: double_add_def round_signed_def)
    qed
  qed (simp_all add: double_add_def)
  with add make show "operator_add x z =
      Inr (if u = Finite True 0 \<and> \<not> sz then FloatImm (type_of x') (Finite False 0) else x')"
    by (simp add: FloatImm_make_def narrow_double_zero)
  have "double_mul u (Finite sz 0) = (case u of Finite s m \<Rightarrow> Finite (s \<noteq> sz) 0 | _ \<Rightarrow> NaN)"
    by (cases u) (simp_all add: double_mul_def round_double_def round_float_def)
  moreover have "narrow_double b (case u of Finite s m \<Rightarrow> Finite (s \<noteq> sz) 0 | _ \<Rightarrow> NaN)
      = (case u of Finite s m \<Rightarrow> Finite (s \<noteq> sz) 0 | _ \<Rightarrow> NaN)" for b
    by (cases u) (simp_all add: narrow_double_zero, simp_all add: narrow_double_def)
  ultimately show "operator_mul x z =
      Inr (FloatImm (type_of x') (case u of Finite s m \<Rightarrow> Finite (s \<noteq> sz) 0 | _ \<Rightarrow> NaN))"
    using mul by (simp add: FloatImm_make_def)
qed

lemma float_literal_one:
  assumes p: "BinaryOpMatchTypes x w = Inr (x', w')"
    and u: "as_FloatImm x' = Some u" and o: "float_is (as_FloatImm w') 1"
    and r: "representable (bits (type_of x')) u"
  shows "operator_mul x w = Inr x'" and "operator_div x w = Inr x'"
proof -
  from o obtain v where v: "as_FloatImm w' = Some v" using float_is_Some by blast
  with o have "double_eq v (double_of_int64 1)" by (simp add: float_is_def)
  then have v1: "v = Finite False 1" by (rule double_eq_one)
  note ni = as_FloatImm_not_Int [OF u] as_FloatImm_not_Int [OF v]
  note w = promoted_wider [OF p]
  from r have n: "narrow_double (bits (type_of x')) u = u"
    and f: "\<And>s m. u = Finite s m \<Longrightarrow> 0 \<le> m \<and> round_double s m = u"
    by (auto simp: representable_def)
  have x': "FloatImm (type_of x') u = x'" using as_FloatImm_eq [OF u] by simp
  have make: "FloatImm_make (type_of x') u = x'"
    using n x' by (simp add: FloatImm_make_def)
  have nz: "\<not> float_is (as_FloatImm w') 0"
    by (simp add: v v1 float_is_def double_eq_def double_of_int64_0)
  have "operator_mul x w = Inr (FloatImm_make (type_of x') (double_mul u v))"
    using p u v ni w by (simp add: operator_mul_def Let_def int_is_def)
  moreover have "double_mul u v = u"
    using f by (cases u) (auto simp: v1 double_mul_def)
  ultimately show "operator_mul x w = Inr x'" using make by simp
  have "operator_div x w = Inr (FloatImm_make (type_of x') (double_div u v))"
    using p u v ni w nz by (simp add: operator_div_def Let_def int_is_def)
  moreover have "double_div u v = u"
    using f by (cases u) (auto simp: v1 double_div_def)
  ultimately show "operator_div x w = Inr x'" using make by simp
qed

lemma representable_3: "representable 32 (Finite False 3)"
  using round_double_exact [of 3 False] narrow_double_exact [of 3 32 False]
  by (simp add: representable_def)

text \<open>
  Claim C3, amended. Let promotion of \<open>x\<close> and a literal succeed and leave the literal a
  signed-int literal of value 0 or 1, and let \<open>x\<close>, where it is promoted to a signed-int
  literal itself, hold a value within its type's width (of at most 64 bits). Then \<open>x + 0\<close>
  is the promoted \<open>x\<close>, \<open>x * 0\<close> is the literal 0 of the promoted type, and \<open>x * 1\<close> and
  \<open>x / 1\<close> are the promoted \<open>x\<close>. When both types are index types, \<open>x % 1\<close> is the
  literal 0 of the wider type. Beside a float literal equal to 0 or 1 the laws for \<open>+\<close>,
  \<open>*\<close> and \<open>/\<close> hold for a promoted \<open>x\<close> that is no literal, and for a float literal
  \<open>x\<close> holding a value of its type as follows: \<open>x * 1.0\<close> and \<open>x / 1.0\<close> are \<open>x\<close>;
  \<open>x + 0.0\<close> is \<open>x\<close>, except that \<open>(-0.0) + (+0.0)\<close> is the literal \<open>+0.0\<close>; \<open>x * 0.0\<close>
  is the literal zero whose sign is the product of the signs when \<open>x\<close> is finite, and the
  literal NaN when \<open>x\<close> is an infinity or a NaN. Nothing is simplified, and the generic
  node is built on the promoted operands, when neither operand is a signed-int or float
  literal (so for every unsigned literal beside a symbolic \<open>x\<close>), when a scalar stands
  beside a vector \<open>x\<close> that is no literal, and, for \<open>%\<close>, when the operand types are not
  both index types.
\<close>

theorem identity_laws:
  "(BinaryOpMatchTypes x z = Inr (x', z') \<and> as_IntImm z' = Some 0
      \<and> (\<forall>v. as_IntImm x' = Some v \<longrightarrow>
            bits (type_of x') \<le> 64 \<and> signed_take_bit (bits (type_of x') - 1) v = v) \<longrightarrow>
        operator_add x z = Inr x'
      \<and> operator_mul x z = Inr z' \<and> z' = IntImm (type_of x') 0)
   \<and> (BinaryOpMatchTypes x w = Inr (x', w') \<and> as_IntImm w' = Some 1
      \<and> (\<forall>v. as_IntImm x' = Some v \<longrightarrow>
            bits (type_of x') \<le> 64 \<and> signed_take_bit (bits (type_of x') - 1) v = v) \<longrightarrow>
        operator_mul x w = Inr x'
      \<and> operator_div x w = Inr x')
   \<and> (IsIndexType (type_of x) \<and> IsIndexType (type_of w) \<and> as_IntImm w = Some 1 \<longrightarrow>
        operator_mod x w = Inr (IntImm (wider (type_of x) (type_of w)) 0))
   \<and> (BinaryOpMatchTypes x z = Inr (x', z') \<and> float_is (as_FloatImm z') 0
      \<and> as_IntImm x' = None \<and> as_FloatImm x' = None \<longrightarrow>
        operator_add x z = Inr x'
      \<and> operator_mul x z = Inr z')
   \<and> (BinaryOpMatchTypes x w = Inr (x', w') \<and> float_is (as_FloatImm w') 1
      \<and> as_IntImm x' = None \<and> as_FloatImm x' = None \<longrightarrow>
        operator_mul x w = Inr x'
      \<and> operator_div x w = Inr x')
   \<and> (BinaryOpMatchTypes x z = Inr (x', z') \<and> as_FloatImm x' = Some u
      \<and> as_FloatImm z' = Some (Finite sz 0) \<and> representable (bits (type_of x')) u \<longrightarrow>
        operator_add x z =
          Inr (if u = Finite True 0 \<and> \<not> sz then FloatImm (type_of x') (Finite False 0) else x')
      \<and> operator_mul x z =
          Inr (FloatImm (type_of x') (case u of Finite s m \<Rightarrow> Finite (s \<noteq> sz) 0 | _ \<Rightarrow> NaN)))
   \<and> (BinaryOpMatchTypes x w = Inr (x', w') \<and> as_FloatImm x' = Some u
      \<and> float_is (as_FloatImm w') 1 \<and> representable (bits (type_of x')) u \<longrightarrow>
        operator_mul x w = Inr x'
      \<and> operator_div x w = Inr x')
   \<and> (as_IntImm x = None \<and> as_FloatImm x = None \<and> as_IntImm z = None \<and> as_FloatImm z = None \<longrightarrow>
        operator_add x z =
          (case BinaryOpMatchTypes x z of Inl e \<Rightarrow> Inl e | Inr (a, b) \<Rightarrow> Inr (Add a b))
      \<and> operator_mul x z =
          (case BinaryOpMatchTypes x z of Inl e \<Rightarrow> Inl e | Inr (a, b) \<Rightarrow> Inr (Mul a b))
      \<and> operator_div x z =
          (case BinaryOpMatchTypes x z of Inl e \<Rightarrow> Inl e | Inr (a, b) \<Rightarrow> Inr (Div a b)))
   \<and> (as_IntImm x = None \<and> as_FloatImm x = None
      \<and> lanes (type_of x) \<noteq> 1 \<and> lanes (type_of z) = 1 \<longrightarrow>
        operator_add x z =
          (case BinaryOpMatchTypes x z of Inl e \<Rightarrow> Inl e | Inr (a, b) \<Rightarrow> Inr (Add a b))
      \<and> operator_mul x z =
          (case BinaryOpMatchTypes x z of Inl e \<Rightarrow> Inl e | Inr (a, b) \<Rightarrow> Inr (Mul a b))
      \<and> operator_div x z =
          (case BinaryOpMatchTypes x z of Inl e \<Rightarrow> Inl e | Inr (a, b) \<Rightarrow> Inr (Div a b)))
   \<and> (\<not> (IsIndexType (type_of x) \<and> IsIndexType (type_of w)) \<longrightarrow>
        operator_mod x w =
          (case BinaryOpMatchTypes x w of Inl e \<Rightarrow> Inl e | Inr (a, b) \<Rightarrow> Inr (Mod a b)))"
proof (intro conjI impI)
  assume h: "BinaryOpMatchTypes x z = Inr (x', z') \<and> as_IntImm z' = Some 0
      \<and> (\<forall>v. as_IntImm x' = Some v \<longrightarrow>
            bits (type_of x') \<le> 64 \<and> signed_take_bit (bits (type_of x') - 1) v = v)"
  then have p: "BinaryOpMatchTypes x z = Inr (x', z')" and z: "as_IntImm z' = Some 0" by auto
  have ty: "type_of z' = type_of x'" using p by (simp add: BinaryOpMatchTypes_same_type)
  show z': "z' = IntImm (type_of x') 0"
    using as_IntImm_zero [OF z] ty by simp
  show "operator_add x z = Inr x'"
  proof (cases "as_IntImm x'")
    case None
    with p z promoted_wider [OF p] show ?thesis
      by (simp add: operator_add_def Let_def int_is_def)
  next
    case (Some v)
    with h have "IntImm_make (type_of x') (wrap64 v) = x'"
      by (intro IntImm_make_normalized) auto
    with Some p z promoted_wider [OF p] show ?thesis
      by (simp add: operator_add_def Let_def add64_def)
  qed
  show "operator_mul x z = Inr z'"
  proof (cases "as_IntImm x'")
    case None
    with p z promoted_wider [OF p] promoted_SimpleCast [OF p] show ?thesis
      by (simp add: operator_mul_def Let_def int_is_def)
  next
    case (Some v)
    have "IntImm_make (type_of x') (wrap64 0) = IntImm (type_of x') 0"
      by (simp add: IntImm_make_def wrap64_def)
    with Some p z z' promoted_wider [OF p] show ?thesis
      by (simp add: operator_mul_def Let_def mul64_def)
  qed
next
  assume h: "BinaryOpMatchTypes x w = Inr (x', w') \<and> as_IntImm w' = Some 1
      \<and> (\<forall>v. as_IntImm x' = Some v \<longrightarrow>
            bits (type_of x') \<le> 64 \<and> signed_take_bit (bits (type_of x') - 1) v = v)"
  then have p: "BinaryOpMatchTypes x w = Inr (x', w')" and w: "as_IntImm w' = Some 1" by auto
  show "operator_mul x w = Inr x'"
  proof (cases "as_IntImm x'")
    case None
    with p w promoted_wider [OF p] show ?thesis
      by (simp add: operator_mul_def Let_def int_is_def)
  next
    case (Some v)
    with h have "IntImm_make (type_of x') (wrap64 v) = x'"
      by (intro IntImm_make_normalized) auto
    with Some p w promoted_wider [OF p] show ?thesis
      by (simp add: operator_mul_def Let_def mul64_def)
  qed
  show "operator_div x w = Inr x'"
  proof (cases "as_IntImm x'")
    case None
    with p w promoted_wider [OF p] show ?thesis
      by (simp add: operator_div_def Let_def int_is_def)
  next
    case (Some v)
    with h have "IntImm_make (type_of x') v = x'"
      by (intro IntImm_make_normalized) auto
    with Some p w promoted_wider [OF p] show ?thesis
      by (simp add: operator_div_def Let_def int_is_def)
  qed
next
  assume h: "IsIndexType (type_of x) \<and> IsIndexType (type_of w) \<and> as_IntImm w = Some 1"
  let ?r = "wider (type_of x) (type_of w)"
  from h have r: "IsIndexType ?r" by (simp add: wider_def)
  then have mz: "make_zero ?r = IntImm ?r 0"
    by (simp add: make_zero_def make_const_def MakeConstScalar_def IsIndexType_def
        IntImm_make_def to_int64_def wrap64_def)
  have im: "IntImm_make ?r 0 = IntImm ?r 0" by (simp add: IntImm_make_def)
  show "operator_mod x w = Inr (IntImm ?r 0)"
  proof (cases "as_IntImm x")
    case None
    with h mz show ?thesis by (simp add: operator_mod_def Let_def int_is_def)
  next
    case (Some v)
    with h mz im show ?thesis
      by (simp add: operator_mod_def Let_def int_is_def)
  qed
next
  assume h: "BinaryOpMatchTypes x z = Inr (x', z') \<and> float_is (as_FloatImm z') 0
      \<and> as_IntImm x' = None \<and> as_FloatImm x' = None"
  then have p: "BinaryOpMatchTypes x z = Inr (x', z')" by simp
  from h obtain v where v: "as_FloatImm z' = Some v" using float_is_Some by blast
  then have zi: "as_IntImm z' = None" by (rule as_FloatImm_not_Int)
  from h zi promoted_wider [OF p] show "operator_add x z = Inr x'"
    by (simp add: operator_add_def Let_def int_is_def float_is_def)
  from h zi promoted_wider [OF p] promoted_SimpleCast [OF p] float_is_0_not_1 [of "as_FloatImm z'"]
  show "operator_mul x z = Inr z'"
    by (simp add: operator_mul_def Let_def int_is_def) (simp add: float_is_def)?
next
  assume h: "BinaryOpMatchTypes x w = Inr (x', w') \<and> float_is (as_FloatImm w') 1
      \<and> as_IntImm x' = None \<and> as_FloatImm x' = None"
  then have p: "BinaryOpMatchTypes x w = Inr (x', w')" by simp
  from h obtain v where v: "as_FloatImm w' = Some v" using float_is_Some by blast
  then have wi: "as_IntImm w' = None" by (rule as_FloatImm_not_Int)
  from h wi promoted_wider [OF p] show "operator_mul x w = Inr x'"
    by (simp add: operator_mul_def Let_def int_is_def) (simp add: float_is_def)?
  from h wi promoted_wider [OF p] show "operator_div x w = Inr x'"
    by (simp add: operator_div_def Let_def int_is_def float_is_def)
next
  assume h: "BinaryOpMatchTypes x z = Inr (x', z') \<and> as_FloatImm x' = Some u
      \<and> as_FloatImm z' = Some (Finite sz 0) \<and> representable (bits (type_of x')) u"
  then have p: "BinaryOpMatchTypes x z = Inr (x', z')" and u: "as_FloatImm x' = Some u"
    and v: "as_FloatImm z' = Some (Finite sz 0)" and r: "representable (bits (type_of x')) u"
    by blast+
  show "operator_add x z =
      Inr (if u = Finite True 0 \<and> \<not> sz then FloatImm (type_of x') (Finite False 0) else x')"
    by (rule float_literal_zero(1) [OF p u v r])
  show "operator_mul x z =
      Inr (FloatImm (type_of x') (case u of Finite s m \<Rightarrow> Finite (s \<noteq> sz) 0 | _ \<Rightarrow> NaN))"
    by (rule float_literal_zero(2) [OF p u v r])
next
  assume h: "BinaryOpMatchTypes x w = Inr (x', w') \<and> as_FloatImm x' = Some u
      \<and> float_is (as_FloatImm w') 1 \<and> representable (bits (type_of x')) u"
  then have p: "BinaryOpMatchTypes x w = Inr (x', w')" and u: "as_FloatImm x' = Some u"
    and o: "float_is (as_FloatImm w') 1" and r: "representable (bits (type_of x')) u"
    by blast+
  show "operator_mul x w = Inr x'" by (rule float_literal_one(1) [OF p u o r])
  show "operator_div x w = Inr x'" by (rule float_literal_one(2) [OF p u o r])
next
  assume h: "as_IntImm x = None \<and> as_FloatImm x = None \<and> as_IntImm z = None \<and> as_FloatImm z = None"
  then show "operator_add x z =
      (case BinaryOpMatchTypes x z of Inl e \<Rightarrow> Inl e | Inr (a, b) \<Rightarrow> Inr (Add a b))"
    by (intro generic_symbolic) simp_all
  from h show "operator_mul x z =
      (case BinaryOpMatchTypes x z of Inl e \<Rightarrow> Inl e | Inr (a, b) \<Rightarrow> Inr (Mul a b))"
    by (intro generic_symbolic) simp_all
  from h show "operator_div x z =
      (case BinaryOpMatchTypes x z of Inl e \<Rightarrow> Inl e | Inr (a, b) \<Rightarrow> Inr (Div a b))"
    by (intro generic_symbolic) simp_all
next
  assume h: "as_IntImm x = None \<and> as_FloatImm x = None
      \<and> lanes (type_of x) \<noteq> 1 \<and> lanes (type_of z) = 1"
  then show "operator_add x z =
      (case BinaryOpMatchTypes x z of Inl e \<Rightarrow> Inl e | Inr (a, b) \<Rightarrow> Inr (Add a b))"
    by (intro generic_vector) simp_all
  from h show "operator_mul x z =
      (case BinaryOpMatchTypes x z of Inl e \<Rightarrow> Inl e | Inr (a, b) \<Rightarrow> Inr (Mul a b))"
    by (intro generic_vector) simp_all
  from h show "operator_div x z =
      (case BinaryOpMatchTypes x z of Inl e \<Rightarrow> Inl e | Inr (a, b) \<Rightarrow> Inr (Div a b))"
    by (intro generic_vector) simp_all
next
  assume "\<not> (IsIndexType (type_of x) \<and> IsIndexType (type_of w))"
  then show "operator_mod x w =
      (case BinaryOpMatchTypes x w of Inl e \<Rightarrow> Inl e | Inr (a, b) \<Rightarrow> Inr (Mod a b))"
    by (auto simp: operator_mod_def Let_def split: sum.splits)
qed

theorem identity_laws_witness:
  "operator_add (Variable (Int_type 32 1) ''x'' 0) (IntImm (Int_type 32 1) 0)
     = Inr (Variable (Int_type 32 1) ''x'' 0)
   \<and> operator_mul (Variable (Int_type 32 1) ''x'' 0) (IntImm (Int_type 32 1) 0)
     = Inr (IntImm (Int_type 32 1) 0)
   \<and> operator_mul (Variable (Int_type 32 1) ''x'' 0) (IntImm (Int_type 32 1) 1)
     = Inr (Variable (Int_type 32 1) ''x'' 0)
   \<and> operator_div (IntImm (Int_type 32 1) (- 5)) (IntImm (Int_type 32 1) 1)
     = Inr (IntImm (Int_type 32 1) (- 5))
   \<and> operator_mod (Variable (Int_type 32 1) ''x'' 0) (IntImm (Int_type 32 1) 1)
     = Inr (IntImm (Int_type 32 1) 0)
   \<and> operator_add (Variable (Int_type 32 1) ''x'' 0) (IntImm (Int_type 64 1) 0)
     = Inr (Cast (Int_type 64 1) (Variable (Int_type 32 1) ''x'' 0))
   \<and> operator_add (Variable (Float_type 32 1) ''y'' 1) (FloatImm (Float_type 32 1) (Finite False 0))
     = Inr (Variable (Float_type 32 1) ''y'' 1)
   \<and> operator_div (Variable (Float_type 32 1) ''y'' 1) (FloatImm (Float_type 32 1) (Finite False 1))
     = Inr (Variable (Float_type 32 1) ''y'' 1)
   \<and> operator_add (FloatImm (Float_type 32 1) (Finite False 3))
        (FloatImm (Float_type 32 1) (Finite False 0))
     = Inr (FloatImm (Float_type 32 1) (Finite False 3))
   \<and> operator_mul (FloatImm (Float_type 32 1) (Finite False 3))
        (FloatImm (Float_type 32 1) (Finite True 0))
     = Inr (FloatImm (Float_type 32 1) (Finite True 0))
   \<and> operator_mul (FloatImm (Float_type 32 1) (Finite False 3))
        (FloatImm (Float_type 32 1) (Finite False 1))
     = Inr (FloatImm (Float_type 32 1) (Finite False 3))
   \<and> operator_div (FloatImm (Float_type 32 1) (Finite False 3))
        (FloatImm (Float_type 32 1) (Finite False 1))
     = Inr (FloatImm (Float_type 32 1) (Finite False 3))
   \<and> operator_mul (Variable (UInt_type 8 1) ''u'' 2) (UIntImm (UInt_type 8 1) 1)
     = Inr (Mul (Variable (UInt_type 8 1) ''u'' 2) (UIntImm (UInt_type 8 1) 1))
   \<and> operator_mul (Variable (Int_type 32 4) ''v'' 3) (IntImm (Int_type 32 1) 1)
     = Inr (Mul (Variable (Int_type 32 4) ''v'' 3) (Broadcast (IntImm (Int_type 32 1) 1) 4))
   \<and> operator_mod (Variable (Float_type 32 1) ''y'' 1) (FloatImm (Float_type 32 1) (Finite False 1))
     = Inr (Mod (Variable (Float_type 32 1) ''y'' 1) (FloatImm (Float_type 32 1) (Finite False 1)))"
proof -
  let ?t = "Int_type 32 1"
  let ?x = "Variable ?t ''x'' 0"
  let ?z = "IntImm ?t 0"
  let ?w = "IntImm ?t 1"
  let ?n = "IntImm ?t (- 5)"
  have p: "BinaryOpMatchTypes ?x ?z = Inr (?x, ?z)" "BinaryOpMatchTypes ?x ?w = Inr (?x, ?w)"
    "BinaryOpMatchTypes ?n ?z = Inr (?n, ?z)" "BinaryOpMatchTypes ?n ?w = Inr (?n, ?w)"
    by (simp_all add: BinaryOpMatchTypes_def)
  have a: "operator_add ?x ?z = Inr ?x \<and> operator_mul ?x ?z = Inr ?z
      \<and> operator_mul ?x ?w = Inr ?x"
    using identity_laws [of ?x ?z ?x ?z ?w ?w] p
    by (simp add: as_IntImm_def)
  have b: "operator_div ?n ?w = Inr ?n"
    using identity_laws [of ?n ?z ?n ?z ?w ?w] p
    by (simp add: as_IntImm_def Int_type_def signed_take_bit_eq_take_bit_minus)
  have c: "operator_mod ?x ?w = Inr ?z"
    using identity_laws [of ?x ?z ?x ?z ?w ?w]
    by (simp add: as_IntImm_def IsIndexType_def Int_type_def is_int_def wider_def)
  let ?z64 = "IntImm (Int_type 64 1) 0"
  let ?c = "Cast (Int_type 64 1) ?x"
  have q: "BinaryOpMatchTypes ?x ?z64 = Inr (?c, ?z64)"
    by (simp add: BinaryOpMatchTypes_def Let_def Int_type_def is_float_def is_int_def cast_def
        as_IntImm_def as_FloatImm_def)
  have d: "operator_add ?x ?z64 = Inr ?c"
    using identity_laws [of ?x ?z64 ?c ?z64 ?w ?w] q
    by (simp add: as_IntImm_def)
  let ?f = "Float_type 32 1"
  let ?y = "Variable ?f ''y'' 1"
  let ?fz = "FloatImm ?f (Finite False 0)"
  let ?fn = "FloatImm ?f (Finite True 0)"
  let ?fw = "FloatImm ?f (Finite False 1)"
  let ?g = "FloatImm ?f (Finite False 3)"
  have r: "BinaryOpMatchTypes ?y ?fz = Inr (?y, ?fz)" "BinaryOpMatchTypes ?y ?fw = Inr (?y, ?fw)"
    by (simp_all add: BinaryOpMatchTypes_def)
  have e: "operator_add ?y ?fz = Inr ?y \<and> operator_div ?y ?fw = Inr ?y"
    using identity_laws [of ?y ?fz ?y ?fz ?fw ?fw] r
    by (simp add: as_IntImm_def as_FloatImm_def float_is_def double_eq_def double_of_int64_0
        double_of_int64_1)
  have g: "BinaryOpMatchTypes ?g ?fz = Inr (?g, ?fz)" "BinaryOpMatchTypes ?g ?fn = Inr (?g, ?fn)"
    "BinaryOpMatchTypes ?g ?fw = Inr (?g, ?fw)"
    by (simp_all add: BinaryOpMatchTypes_def)
  have rg: "representable (bits (type_of ?g)) (Finite False 3)"
    using representable_3 by (simp add: Float_type_def)
  have f1: "operator_add ?g ?fz = Inr ?g"
    using identity_laws [where x = ?g and z = ?fz and x' = ?g and z' = ?fz and w = ?fw
        and w' = ?fw and u = "Finite False 3" and sz = False] g rg
    by (simp add: as_IntImm_def as_FloatImm_def)
  have f2: "operator_mul ?g ?fn = Inr ?fn"
    using identity_laws [where x = ?g and z = ?fn and x' = ?g and z' = ?fn and w = ?fw
        and w' = ?fw and u = "Finite False 3" and sz = True] g rg
    by (simp add: as_IntImm_def as_FloatImm_def)
  have f3: "operator_mul ?g ?fw = Inr ?g \<and> operator_div ?g ?fw = Inr ?g"
    using identity_laws [where x = ?g and z = ?fz and x' = ?g and z' = ?fz and w = ?fw
        and w' = ?fw and u = "Finite False 3" and sz = False] g rg
    by (simp add: as_IntImm_def as_FloatImm_def float_is_def double_eq_def double_of_int64_1)
  let ?ut = "UInt_type 8 1"
  let ?u = "Variable ?ut ''u'' 2"
  let ?u1 = "UIntImm ?ut 1"
  have pu: "BinaryOpMatchTypes ?u ?u1 = Inr (?u, ?u1)"
    by (simp add: BinaryOpMatchTypes_def)
  have h1: "operator_mul ?u ?u1 = Inr (Mul ?u ?u1)"
    using identity_laws [where x = ?u and z = ?u1 and w = ?u1] pu
    by (simp add: as_IntImm_def as_FloatImm_def)
  let ?v = "Variable (Int_type 32 4) ''v'' 3"
  have pv: "BinaryOpMatchTypes ?v ?w = Inr (?v, Broadcast ?w 4)"
    by (simp add: BinaryOpMatchTypes_def Let_def Int_type_def)
  have h2: "operator_mul ?v ?w = Inr (Mul ?v (Broadcast ?w 4))"
    using identity_laws [where x = ?v and z = ?w and w = ?w] pv
    by (simp add: as_IntImm_def as_FloatImm_def Int_type_def)
  have h3: "operator_mod ?y ?fw = Inr (Mod ?y ?fw)"
    using identity_laws [where x = ?y and z = ?fw and w = ?fw] r
    by (simp add: IsIndexType_def Float_type_def is_int_def)
  from a b c d e f1 f2 f3 h1 h2 h3 show ?thesis by simp
qed

theorem identity_laws_counterexample:
  "operator_add (Variable (UInt_type 32 1) ''x'' 0) (UIntImm (UInt_type 32 1) 0)
     = Inr (Add (Variable (UInt_type 32 1) ''x'' 0) (UIntImm (UInt_type 32 1) 0))
   \<and> operator_mul (Variable (UInt_type 32 1) ''x'' 0) (UIntImm (UInt_type 32 1) 1)
     = Inr (Mul (Variable (UInt_type 32 1) ''x'' 0) (UIntImm (UInt_type 32 1) 1))
   \<and> operator_mod (Variable (Int_type 16 1) ''x'' 0) (IntImm (Int_type 16 1) 1)
     = Inr (Mod (Variable (Int_type 16 1) ''x'' 0) (IntImm (Int_type 16 1) 1))
   \<and> operator_add (Variable (Int_type 32 4) ''v'' 0) (IntImm (Int_type 32 1) 0)
     = Inr (Add (Variable (Int_type 32 4) ''v'' 0) (Broadcast (IntImm (Int_type 32 1) 0) 4))
   \<and> operator_add (FloatImm (Float_type 64 1) (Finite True 0))
        (FloatImm (Float_type 64 1) (Finite False 0))
     = Inr (FloatImm (Float_type 64 1) (Finite False 0))
   \<and> operator_mul (FloatImm (Float_type 64 1) (Infinity False))
        (FloatImm (Float_type 64 1) (Finite False 0))
     = Inr (FloatImm (Float_type 64 1) NaN)"
  by (simp add: operator_add_def operator_mul_def operator_mod_def BinaryOpMatchTypes_def
      Let_def as_IntImm_def as_FloatImm_def int_is_def float_is_def IsIndexType_def
      Int_type_def UInt_type_def Float_type_def is_int_def wider_def FloatImm_make_def
      narrow_double_def double_add_def double_mul_def)

subsection \<open>Shifts and bitwise operators\<close>

lemma index_fold_shape:
  assumes f: "f a b =
     (if IsIndexType (type_of a) \<and> IsIndexType (type_of b)
          \<and> as_IntImm a \<noteq> None \<and> as_IntImm b \<noteq> None then
        Inr (IntImm_make (wider (type_of a) (type_of b)) (g (the (as_IntImm a)) (the (as_IntImm b))))
      else if sh \<and> IsIndexType (type_of a) \<and> IsIndexType (type_of b) \<and> as_IntImm b = Some 0 then
        Inr (SimpleCast (wider (type_of a) (type_of b)) a)
      else
        (case BinaryOpMatchTypes a b of
           Inl e \<Rightarrow> Inl e
         | Inr (a', b') \<Rightarrow> Inr (Call (type_of a') name [a', b'] PureIntrinsic)))"
  shows "(IsIndexType (type_of a) \<and> IsIndexType (type_of b) \<longrightarrow>
           (\<forall>x y. as_IntImm a = Some x \<and> as_IntImm b = Some y \<longrightarrow>
               f a b = Inr (IntImm_make (wider (type_of a) (type_of b)) (g x y))))
       \<and> (\<not> (IsIndexType (type_of a) \<and> IsIndexType (type_of b))
            \<or> as_IntImm b = None \<or> (as_IntImm a = None \<and> \<not> (sh \<and> as_IntImm b = Some 0)) \<longrightarrow>
           f a b = (case BinaryOpMatchTypes a b of
                      Inl e \<Rightarrow> Inl e
                    | Inr (a', b') \<Rightarrow> Inr (Call (type_of a') name [a', b'] PureIntrinsic)))
       \<and> (\<forall>r. f a b = Inr r \<and> is_literal r \<longrightarrow>
             is_literal a \<and> is_literal b \<and> IsIndexType (type_of a) \<and> IsIndexType (type_of b))
       \<and> (\<forall>e. f a b = Inl e \<longrightarrow> e = TypeMismatch)"
proof (intro conjI impI allI)
  fix x y
  assume "IsIndexType (type_of a) \<and> IsIndexType (type_of b)"
    and "as_IntImm a = Some x \<and> as_IntImm b = Some y"
  then show "f a b = Inr (IntImm_make (wider (type_of a) (type_of b)) (g x y))"
    by (simp add: f)
next
  assume "\<not> (IsIndexType (type_of a) \<and> IsIndexType (type_of b))
            \<or> as_IntImm b = None \<or> (as_IntImm a = None \<and> \<not> (sh \<and> as_IntImm b = Some 0))"
  then show "f a b = (case BinaryOpMatchTypes a b of
                      Inl e \<Rightarrow> Inl e
                    | Inr (a', b') \<Rightarrow> Inr (Call (type_of a') name [a', b'] PureIntrinsic))"
    by (auto simp: f)
next
  fix r
  assume r: "f a b = Inr r \<and> is_literal r"
  have lit: "as_IntImm e \<noteq> None \<Longrightarrow> is_literal e" for e
    by (cases e) (simp_all add: as_IntImm_def is_literal_def)
  have sc: "is_literal (SimpleCast t e) \<Longrightarrow> is_literal e" for t e
    by (auto simp: SimpleCast_def is_literal_def split: if_splits)
  have "is_literal a \<and> is_literal b \<and> IsIndexType (type_of a) \<and> IsIndexType (type_of b)"
  proof (cases "IsIndexType (type_of a) \<and> IsIndexType (type_of b)
          \<and> as_IntImm a \<noteq> None \<and> as_IntImm b \<noteq> None")
    case True
    then show ?thesis by (simp add: lit)
  next
    case False
    note nf = this
    show ?thesis
    proof (cases "sh \<and> IsIndexType (type_of a) \<and> IsIndexType (type_of b) \<and> as_IntImm b = Some 0")
      case True
      with nf r have "is_literal (SimpleCast (wider (type_of a) (type_of b)) a)"
        unfolding f by auto
      then have "is_literal a" by (rule sc)
      moreover from True have "is_literal b" by (simp add: lit)
      ultimately show ?thesis using True by simp
    next
      case False
      with nf r have "\<not> is_literal r"
        unfolding f by (auto simp: is_literal_def split: sum.splits)
      with r show ?thesis by simp
    qed
  qed
  then show "is_literal a" "is_literal b" "IsIndexType (type_of a)" "IsIndexType (type_of b)"
    by simp_all
next
  fix e
  assume "f a b = Inl e"
  then show "e = TypeMismatch"
    unfolding f by (auto split: if_splits sum.splits dest: BinaryOpMatchTypes_error)
qed

lemma shift_shape:
  assumes "(f, name, g) \<in> {(operator_rshift, ''shift_right'', shr64),
                            (operator_lshift, ''shift_left'', shl64)}"
  shows "f a b =
     (if IsIndexType (type_of a) \<and> IsIndexType (type_of b)
          \<and> as_IntImm a \<noteq> None \<and> as_IntImm b \<noteq> None then
        Inr (IntImm_make (wider (type_of a) (type_of b)) (g (the (as_IntImm a)) (the (as_IntImm b))))
      else if True \<and> IsIndexType (type_of a) \<and> IsIndexType (type_of b) \<and> as_IntImm b = Some 0 then
        Inr (SimpleCast (wider (type_of a) (type_of b)) a)
      else
        (case BinaryOpMatchTypes a b of
           Inl e \<Rightarrow> Inl e
         | Inr (a', b') \<Rightarrow> Inr (Call (type_of a') name [a', b'] PureIntrinsic)))"
  using assms by (auto simp: operator_rshift_def operator_lshift_def Let_def int_is_def)

lemma bitwise_shape:
  assumes "(f, name, g) \<in> {(operator_bitand, ''bitwise_and'', (AND)),
                            (operator_bitor, ''bitwise_or'', (OR)),
                            (operator_bitxor, ''bitwise_xor'', (XOR))}"
  shows "f a b =
     (if IsIndexType (type_of a) \<and> IsIndexType (type_of b)
          \<and> as_IntImm a \<noteq> None \<and> as_IntImm b \<noteq> None then
        Inr (IntImm_make (wider (type_of a) (type_of b)) (g (the (as_IntImm a)) (the (as_IntImm b))))
      else if False \<and> IsIndexType (type_of a) \<and> IsIndexType (type_of b) \<and> as_IntImm b = Some 0 then
        Inr (SimpleCast (wider (type_of a) (type_of b)) a)
      else
        (case BinaryOpMatchTypes a b of
           Inl e \<Rightarrow> Inl e
         | Inr (a', b') \<Rightarrow> Inr (Call (type_of a') name [a', b'] PureIntrinsic)))"
  using assms
  by (auto simp: operator_bitand_def operator_bitor_def operator_bitxor_def Let_def)

lemma shift_by_zero:
  assumes m: "(f, name, g) \<in> {(operator_rshift, ''shift_right'', shr64),
                            (operator_lshift, ''shift_left'', shl64)}"
    and i: "IsIndexType (type_of a)" "IsIndexType (type_of b)" and z: "as_IntImm b = Some 0"
  shows "as_IntImm a = None \<longrightarrow> f a b = Inr (SimpleCast (wider (type_of a) (type_of b)) a)"
    and "type_of a = type_of b
          \<and> (\<forall>v. as_IntImm a = Some v \<longrightarrow> signed_take_bit (bits (type_of a) - 1) v = v)
         \<longrightarrow> f a b = Inr a"
proof -
  show "as_IntImm a = None \<longrightarrow> f a b = Inr (SimpleCast (wider (type_of a) (type_of b)) a)"
    using i z by (simp add: shift_shape [OF m])
  show "type_of a = type_of b
          \<and> (\<forall>v. as_IntImm a = Some v \<longrightarrow> signed_take_bit (bits (type_of a) - 1) v = v)
         \<longrightarrow> f a b = Inr a"
  proof
    assume h: "type_of a = type_of b
          \<and> (\<forall>v. as_IntImm a = Some v \<longrightarrow> signed_take_bit (bits (type_of a) - 1) v = v)"
    then have w: "wider (type_of a) (type_of b) = type_of a" by (simp add: wider_def)
    show "f a b = Inr a"
    proof (cases "as_IntImm a")
      case None
      with i z w show ?thesis by (simp add: shift_shape [OF m])
    next
      case (Some v)
      from i have "bits (type_of a) \<le> 64" by (auto simp: IsIndexType_def)
      moreover from Some h have "signed_take_bit (bits (type_of a) - 1) v = v" by blast
      ultimately have n: "IntImm_make (type_of a) (wrap64 v) = a" "IntImm_make (type_of a) v = a"
        using IntImm_make_normalized [OF Some] by blast+
      from m have "g v 0 = v \<or> g v 0 = wrap64 v"
        by (auto simp: shr64_def shl64_def)
      with n have "IntImm_make (type_of a) (g v 0) = a" by auto
      with Some i z w show ?thesis by (simp add: shift_shape [OF m])
    qed
  qed
qed

lemma shift_ops:
  assumes m: "(f, name, g) \<in> {(operator_rshift, ''shift_right'', shr64),
                            (operator_lshift, ''shift_left'', shl64)}"
  shows "(IsIndexType (type_of a) \<and> IsIndexType (type_of b) \<longrightarrow>
           (\<forall>x y. as_IntImm a = Some x \<and> as_IntImm b = Some y \<longrightarrow>
               f a b = Inr (IntImm_make (wider (type_of a) (type_of b)) (g x y))))
       \<and> (IsIndexType (type_of a) \<and> IsIndexType (type_of b) \<and> as_IntImm b = Some 0 \<longrightarrow>
           (as_IntImm a = None \<longrightarrow> f a b = Inr (SimpleCast (wider (type_of a) (type_of b)) a))
         \<and> (type_of a = type_of b
              \<and> (\<forall>v. as_IntImm a = Some v \<longrightarrow> signed_take_bit (bits (type_of a) - 1) v = v)
             \<longrightarrow> f a b = Inr a))
       \<and> (\<not> (IsIndexType (type_of a) \<and> IsIndexType (type_of b))
            \<or> as_IntImm b = None \<or> (as_IntImm a = None \<and> as_IntImm b \<noteq> Some 0) \<longrightarrow>
           f a b = (case BinaryOpMatchTypes a b of
                      Inl e \<Rightarrow> Inl e
                    | Inr (a', b') \<Rightarrow> Inr (Call (type_of a') name [a', b'] PureIntrinsic)))
       \<and> (\<forall>r. f a b = Inr r \<and> is_literal r \<longrightarrow>
             is_literal a \<and> is_literal b \<and> IsIndexType (type_of a) \<and> IsIndexType (type_of b))
       \<and> (\<forall>e. f a b = Inl e \<longrightarrow> e = TypeMismatch)"
proof -
  note s = index_fold_shape [where f = f and g = g and name = name and sh = True and a = a and b = b,
      OF shift_shape [OF m]]
  note z = shift_by_zero [OF m, of a b]
  from s have s1: "IsIndexType (type_of a) \<and> IsIndexType (type_of b) \<longrightarrow>
           (\<forall>x y. as_IntImm a = Some x \<and> as_IntImm b = Some y \<longrightarrow>
               f a b = Inr (IntImm_make (wider (type_of a) (type_of b)) (g x y)))"
    by (rule conjunct1)
  have "\<not> (True \<and> as_IntImm b = Some 0) \<longleftrightarrow> as_IntImm b \<noteq> Some 0" by simp
  with s [THEN conjunct2, THEN conjunct1]
  have s2: "\<not> (IsIndexType (type_of a) \<and> IsIndexType (type_of b))
            \<or> as_IntImm b = None \<or> (as_IntImm a = None \<and> as_IntImm b \<noteq> Some 0) \<longrightarrow>
           f a b = (case BinaryOpMatchTypes a b of
                      Inl e \<Rightarrow> Inl e
                    | Inr (a', b') \<Rightarrow> Inr (Call (type_of a') name [a', b'] PureIntrinsic))"
    by (simp only:)
  note s3 = s [THEN conjunct2, THEN conjunct2, THEN conjunct1]
  note s4 = s [THEN conjunct2, THEN conjunct2, THEN conjunct2]
  have s5: "IsIndexType (type_of a) \<and> IsIndexType (type_of b) \<and> as_IntImm b = Some 0 \<longrightarrow>
           (as_IntImm a = None \<longrightarrow> f a b = Inr (SimpleCast (wider (type_of a) (type_of b)) a))
         \<and> (type_of a = type_of b
              \<and> (\<forall>v. as_IntImm a = Some v \<longrightarrow> signed_take_bit (bits (type_of a) - 1) v = v)
             \<longrightarrow> f a b = Inr a)"
  proof (intro impI conjI)
    assume h: "IsIndexType (type_of a) \<and> IsIndexType (type_of b) \<and> as_IntImm b = Some 0"
    assume n: "as_IntImm a = None"
    from h have "IsIndexType (type_of a)" "IsIndexType (type_of b)" "as_IntImm b = Some 0"
      by simp_all
    from z(1) [OF this] n show "f a b = Inr (SimpleCast (wider (type_of a) (type_of b)) a)" ..
  next
    assume h: "IsIndexType (type_of a) \<and> IsIndexType (type_of b) \<and> as_IntImm b = Some 0"
    assume n: "type_of a = type_of b
              \<and> (\<forall>v. as_IntImm a = Some v \<longrightarrow> signed_take_bit (bits (type_of a) - 1) v = v)"
    from h have "IsIndexType (type_of a)" "IsIndexType (type_of b)" "as_IntImm b = Some 0"
      by simp_all
    from z(2) [OF this] n show "f a b = Inr a" ..
  qed
  show ?thesis by (intro conjI s1 s5 s2 s3 s4)
qed

lemma bitwise_ops:
  assumes m: "(f, name, g) \<in> {(operator_bitand, ''bitwise_and'', (AND)),
                            (operator_bitor, ''bitwise_or'', (OR)),
                            (operator_bitxor, ''bitwise_xor'', (XOR))}"
  shows "(IsIndexType (type_of a) \<and> IsIndexType (type_of b) \<longrightarrow>
           (\<forall>x y. as_IntImm a = Some x \<and> as_IntImm b = Some y \<longrightarrow>
               f a b = Inr (IntImm_make (wider (type_of a) (type_of b)) (g x y))))
       \<and> (\<not> (IsIndexType (type_of a) \<and> IsIndexType (type_of b))
            \<or> as_IntImm b = None \<or> as_IntImm a = None \<longrightarrow>
           f a b = (case BinaryOpMatchTypes a b of
                      Inl e \<Rightarrow> Inl e
                    | Inr (a', b') \<Rightarrow> Inr (Call (type_of a') name [a', b'] PureIntrinsic)))
       \<and> (\<forall>r. f a b = Inr r \<and> is_literal r \<longrightarrow>
             is_literal a \<and> is_literal b \<and> IsIndexType (type_of a) \<and> IsIndexType (type_of b))
       \<and> (\<forall>e. f a b = Inl e \<longrightarrow> e = TypeMismatch)"
proof -
  note s = index_fold_shape [where f = f and g = g and name = name and sh = False and a = a and b = b,
      OF bitwise_shape [OF m]]
  from s have s1: "IsIndexType (type_of a) \<and> IsIndexType (type_of b) \<longrightarrow>
           (\<forall>x y. as_IntImm a = Some x \<and> as_IntImm b = Some y \<longrightarrow>
               f a b = Inr (IntImm_make (wider (type_of a) (type_of b)) (g x y)))"
    by (rule conjunct1)
  have "(as_IntImm a = None \<and> \<not> (False \<and> as_IntImm b = Some 0)) \<longleftrightarrow> as_IntImm a = None"
    by simp
  with s [THEN conjunct2, THEN conjunct1]
  have s2: "\<not> (IsIndexType (type_of a) \<and> IsIndexType (type_of b))
            \<or> as_IntImm b = None \<or> as_IntImm a = None \<longrightarrow>
           f a b = (case BinaryOpMatchTypes a b of
                      Inl e \<Rightarrow> Inl e
                    | Inr (a', b') \<Rightarrow> Inr (Call (type_of a') name [a', b'] PureIntrinsic))"
    by (simp only:)
  note s3 = s [THEN conjunct2, THEN conjunct2, THEN conjunct1]
  note s4 = s [THEN conjunct2, THEN conjunct2, THEN conjunct2]
  show ?thesis by (intro conjI s1 s2 s3 s4)
qed

text \<open>
  Claim C9, amended. Each of shift-right, shift-left and bitwise and, or, xor folds two
  signed-int literals of index types into the literal of the wider type with the native
  result, and returns a literal only when both operands are literals of index types. A
  shift by the signed-int literal 0 of an index type returns an operand \<open>x\<close> of an index
  type that is no signed-int literal under \<^verbatim>\<open>SimpleCast\<close> to the wider type, and \<open>x\<close> itself
  when the two types are equal (a literal \<open>x\<close> holding a value within its width). In every
  other case the operator promotes the operands and returns the call of the named
  intrinsic on them, or fails with the TypeMismatch of promotion. Bitwise not never folds:
  it is the intrinsic call on the operand, or fails on a float operand.
\<close>

theorem shift_bitwise_fold:
  "(\<forall>(f, name, g) \<in> {(operator_rshift, ''shift_right'', shr64),
                       (operator_lshift, ''shift_left'', shl64)}.
      (IsIndexType (type_of a) \<and> IsIndexType (type_of b) \<longrightarrow>
           (\<forall>x y. as_IntImm a = Some x \<and> as_IntImm b = Some y \<longrightarrow>
               f a b = Inr (IntImm_make (wider (type_of a) (type_of b)) (g x y))))
       \<and> (IsIndexType (type_of a) \<and> IsIndexType (type_of b) \<and> as_IntImm b = Some 0 \<longrightarrow>
           (as_IntImm a = None \<longrightarrow> f a b = Inr (SimpleCast (wider (type_of a) (type_of b)) a))
         \<and> (type_of a = type_of b
              \<and> (\<forall>v. as_IntImm a = Some v \<longrightarrow> signed_take_bit (bits (type_of a) - 1) v = v)
             \<longrightarrow> f a b = Inr a))
       \<and> (\<not> (IsIndexType (type_of a) \<and> IsIndexType (type_of b))
            \<or> as_IntImm b = None \<or> (as_IntImm a = None \<and> as_IntImm b \<noteq> Some 0) \<longrightarrow>
           f a b = (case BinaryOpMatchTypes a b of
                      Inl e \<Rightarrow> Inl e
                    | Inr (a', b') \<Rightarrow> Inr (Call (type_of a') name [a', b'] PureIntrinsic)))
       \<and> (\<forall>r. f a b = Inr r \<and> is_literal r \<longrightarrow>
             is_literal a \<and> is_literal b \<and> IsIndexType (type_of a) \<and> IsIndexType (type_of b))
       \<and> (\<forall>e. f a b = Inl e \<longrightarrow> e = TypeMismatch))
   \<and> (\<forall>(f, name, g) \<in> {(operator_bitand, ''bitwise_and'', (AND)),
                         (operator_bitor, ''bitwise_or'', (OR)),
                         (operator_bitxor, ''bitwise_xor'', (XOR))}.
      (IsIndexType (type_of a) \<and> IsIndexType (type_of b) \<longrightarrow>
           (\<forall>x y. as_IntImm a = Some x \<and> as_IntImm b = Some y \<longrightarrow>
               f a b = Inr (IntImm_make (wider (type_of a) (type_of b)) (g x y))))
       \<and> (\<not> (IsIndexType (type_of a) \<and> IsIndexType (type_of b))
            \<or> as_IntImm b = None \<or> as_IntImm a = None \<longrightarrow>
           f a b = (case BinaryOpMatchTypes a b of
                      Inl e \<Rightarrow> Inl e
                    | Inr (a', b') \<Rightarrow> Inr (Call (type_of a') name [a', b'] PureIntrinsic)))
       \<and> (\<forall>r. f a b = Inr r \<and> is_literal r \<longrightarrow>
             is_literal a \<and> is_literal b \<and> IsIndexType (type_of a) \<and> IsIndexType (type_of b))
       \<and> (\<forall>e. f a b = Inl e \<longrightarrow> e = TypeMismatch))
   \<and> operator_bitnot a =
        (if is_float (type_of a) then Inl UnsupportedOperand
         else Inr (Call (type_of a) ''bitwise_not'' [a] PureIntrinsic))"
proof (intro conjI ballI)
  show "operator_bitnot a =
        (if is_float (type_of a) then Inl UnsupportedOperand
         else Inr (Call (type_of a) ''bitwise_not'' [a] PureIntrinsic))"
    by (cases "type_of a"; cases "code (type_of a)")
      (simp_all add: operator_bitnot_def is_int_def is_uint_def is_float_def)
next
  fix p :: "(Expr \<Rightarrow> Expr \<Rightarrow> error + Expr) \<times> string \<times> (int \<Rightarrow> int \<Rightarrow> int)"
  assume pm: "p \<in> {(operator_rshift, ''shift_right'', shr64),
                       (operator_lshift, ''shift_left'', shl64)}"
  obtain f name g where p: "p = (f, name, g)" by (cases p)
  show "case p of (f, name, g) \<Rightarrow>
      (IsIndexType (type_of a) \<and> IsIndexType (type_of b) \<longrightarrow>
           (\<forall>x y. as_IntImm a = Some x \<and> as_IntImm b = Some y \<longrightarrow>
               f a b = Inr (IntImm_make (wider (type_of a) (type_of b)) (g x y))))
       \<and> (IsIndexType (type_of a) \<and> IsIndexType (type_of b) \<and> as_IntImm b = Some 0 \<longrightarrow>
           (as_IntImm a = None \<longrightarrow> f a b = Inr (SimpleCast (wider (type_of a) (type_of b)) a))
         \<and> (type_of a = type_of b
              \<and> (\<forall>v. as_IntImm a = Some v \<longrightarrow> signed_take_bit (bits (type_of a) - 1) v = v)
             \<longrightarrow> f a b = Inr a))
       \<and> (\<not> (IsIndexType (type_of a) \<and> IsIndexType (type_of b))
            \<or> as_IntImm b = None \<or> (as_IntImm a = None \<and> as_IntImm b \<noteq> Some 0) \<longrightarrow>
           f a b = (case BinaryOpMatchTypes a b of
                      Inl e \<Rightarrow> Inl e
                    | Inr (a', b') \<Rightarrow> Inr (Call (type_of a') name [a', b'] PureIntrinsic)))
       \<and> (\<forall>r. f a b = Inr r \<and> is_literal r \<longrightarrow>
             is_literal a \<and> is_literal b \<and> IsIndexType (type_of a) \<and> IsIndexType (type_of b))
       \<and> (\<forall>e. f a b = Inl e \<longrightarrow> e = TypeMismatch)"
    unfolding p prod.case by (rule shift_ops [OF pm [unfolded p]])
next
  fix p :: "(Expr \<Rightarrow> Expr \<Rightarrow> error + Expr) \<times> string \<times> (int \<Rightarrow> int \<Rightarrow> int)"
  assume pm: "p \<in> {(operator_bitand, ''bitwise_and'', (AND)),
                         (operator_bitor, ''bitwise_or'', (OR)),
                         (operator_bitxor, ''bitwise_xor'', (XOR))}"
  obtain f name g where p: "p = (f, name, g)" by (cases p)
  show "case p of (f, name, g) \<Rightarrow>
      (IsIndexType (type_of a) \<and> IsIndexType (type_of b) \<longrightarrow>
           (\<forall>x y. as_IntImm a = Some x \<and> as_IntImm b = Some y \<longrightarrow>
               f a b = Inr (IntImm_make (wider (type_of a) (type_of b)) (g x y))))
       \<and> (\<not> (IsIndexType (type_of a) \<and> IsIndexType (type_of b))
            \<or> as_IntImm b = None \<or> as_IntImm a = None \<longrightarrow>
           f a b = (case BinaryOpMatchTypes a b of
                      Inl e \<Rightarrow> Inl e
                    | Inr (a', b') \<Rightarrow> Inr (Call (type_of a') name [a', b'] PureIntrinsic)))
       \<and> (\<forall>r. f a b = Inr r \<and> is_literal r \<longrightarrow>
             is_literal a \<and> is_literal b \<and> IsIndexType (type_of a) \<and> IsIndexType (type_of b))
       \<and> (\<forall>e. f a b = Inl e \<longrightarrow> e = TypeMismatch)"
    unfolding p prod.case by (rule bitwise_ops [OF pm [unfolded p]])
qed

theorem shift_bitwise_fold_witness:
  "operator_rshift (IntImm (Int_type 32 1) 40) (IntImm (Int_type 32 1) 3)
     = Inr (IntImm (Int_type 32 1) 5)
   \<and> operator_rshift (Variable (Int_type 32 1) ''x'' 0) (IntImm (Int_type 32 1) 0)
     = Inr (Variable (Int_type 32 1) ''x'' 0)
   \<and> operator_lshift (Variable (Int_type 32 1) ''x'' 0) (IntImm (Int_type 64 1) 0)
     = Inr (Cast (Int_type 64 1) (Variable (Int_type 32 1) ''x'' 0))
   \<and> operator_bitand (IntImm (Int_type 32 1) 12) (IntImm (Int_type 32 1) 10)
     = Inr (IntImm (Int_type 32 1) 8)
   \<and> operator_bitor (Variable (Int_type 32 1) ''x'' 0) (Variable (Int_type 32 1) ''y'' 1)
     = Inr (Call (Int_type 32 1) ''bitwise_or''
              [Variable (Int_type 32 1) ''x'' 0, Variable (Int_type 32 1) ''y'' 1] PureIntrinsic)
   \<and> operator_bitnot (Variable (Int_type 32 1) ''x'' 0)
     = Inr (Call (Int_type 32 1) ''bitwise_not'' [Variable (Int_type 32 1) ''x'' 0] PureIntrinsic)"
proof -
  let ?t = "Int_type 32 1"
  let ?x = "Variable ?t ''x'' 0"
  let ?y = "Variable ?t ''y'' 1"
  have r: "(operator_rshift, ''shift_right'', shr64) \<in> {(operator_rshift, ''shift_right'', shr64),
                       (operator_lshift, ''shift_left'', shl64)}"
    and l: "(operator_lshift, ''shift_left'', shl64) \<in> {(operator_rshift, ''shift_right'', shr64),
                       (operator_lshift, ''shift_left'', shl64)}"
    and ba: "(operator_bitand, ''bitwise_and'', (AND)) \<in> {(operator_bitand, ''bitwise_and'', (AND)),
                         (operator_bitor, ''bitwise_or'', (OR)),
                         (operator_bitxor, ''bitwise_xor'', (XOR))}"
    and bo: "(operator_bitor, ''bitwise_or'', (OR)) \<in> {(operator_bitand, ''bitwise_and'', (AND)),
                         (operator_bitor, ''bitwise_or'', (OR)),
                         (operator_bitxor, ''bitwise_xor'', (XOR))}"
    by (rule insertI1 | rule insertI2)+
  note a0 = shift_bitwise_fold [of "IntImm ?t 40" "IntImm ?t 3", THEN conjunct1, THEN bspec, OF r,
      unfolded prod.case, THEN conjunct1, THEN mp, THEN spec, THEN spec, THEN mp,
      of 40 3]
  have a: "operator_rshift (IntImm ?t 40) (IntImm ?t 3) = Inr (IntImm ?t 5)"
  proof -
    have "operator_rshift (IntImm ?t 40) (IntImm ?t 3) =
        Inr (IntImm_make (wider (type_of (IntImm ?t 40)) (type_of (IntImm ?t 3))) (shr64 40 3))"
      by (rule a0) (simp_all add: as_IntImm_def IsIndexType_def Int_type_def is_int_def)
    then show ?thesis
      by (simp add: wider_def IntImm_make_def shr64_def Int_type_def
          signed_take_bit_eq_take_bit_minus)
  qed
  note b0 = shift_bitwise_fold [of ?x "IntImm ?t 0", THEN conjunct1, THEN bspec, OF r,
      unfolded prod.case, THEN conjunct2, THEN conjunct1, THEN mp, THEN conjunct2, THEN mp]
  have b: "operator_rshift ?x (IntImm ?t 0) = Inr ?x"
    by (rule b0) (simp_all add: as_IntImm_def IsIndexType_def Int_type_def is_int_def)
  note c0 = shift_bitwise_fold [of ?x "IntImm (Int_type 64 1) 0", THEN conjunct1, THEN bspec, OF l,
      unfolded prod.case, THEN conjunct2, THEN conjunct1, THEN mp, THEN conjunct1, THEN mp]
  have c: "operator_lshift ?x (IntImm (Int_type 64 1) 0) = Inr (Cast (Int_type 64 1) ?x)"
  proof -
    have "operator_lshift ?x (IntImm (Int_type 64 1) 0) =
        Inr (SimpleCast (wider (type_of ?x) (type_of (IntImm (Int_type 64 1) 0))) ?x)"
      by (rule c0) (simp_all add: as_IntImm_def IsIndexType_def Int_type_def is_int_def)
    then show ?thesis by (simp add: wider_def SimpleCast_def Int_type_def)
  qed
  note d0 = shift_bitwise_fold [of "IntImm ?t 12" "IntImm ?t 10", THEN conjunct2, THEN conjunct1,
      THEN bspec, OF ba, unfolded prod.case, THEN conjunct1, THEN mp, THEN spec, THEN spec, THEN mp,
      of 12 10]
  have d: "operator_bitand (IntImm ?t 12) (IntImm ?t 10) = Inr (IntImm ?t 8)"
  proof -
    have "operator_bitand (IntImm ?t 12) (IntImm ?t 10) =
        Inr (IntImm_make (wider (type_of (IntImm ?t 12)) (type_of (IntImm ?t 10))) (12 AND 10))"
      by (rule d0) (simp_all add: as_IntImm_def IsIndexType_def Int_type_def is_int_def)
    then show ?thesis
      by (simp add: wider_def IntImm_make_def Int_type_def signed_take_bit_eq_take_bit_minus)
  qed
  note e0 = shift_bitwise_fold [of ?x ?y, THEN conjunct2, THEN conjunct1,
      THEN bspec, OF bo, unfolded prod.case, THEN conjunct2, THEN conjunct1, THEN mp]
  have e: "operator_bitor ?x ?y = Inr (Call ?t ''bitwise_or'' [?x, ?y] PureIntrinsic)"
  proof -
    have "operator_bitor ?x ?y =
        (case BinaryOpMatchTypes ?x ?y of Inl e \<Rightarrow> Inl e
         | Inr (a', b') \<Rightarrow> Inr (Call (type_of a') ''bitwise_or'' [a', b'] PureIntrinsic))"
      by (rule e0) (simp add: as_IntImm_def)
    then show ?thesis by (simp add: BinaryOpMatchTypes_def)
  qed
  have f: "operator_bitnot ?x = Inr (Call ?t ''bitwise_not'' [?x] PureIntrinsic)"
    using shift_bitwise_fold [of ?x ?x, THEN conjunct2, THEN conjunct2]
    by (simp add: is_float_def Int_type_def)
  from a b c d e f show ?thesis by simp
qed

theorem shift_bitwise_fold_counterexample:
  "operator_rshift (Variable (Int_type 16 1) ''x'' 0) (IntImm (Int_type 16 1) 0)
     = Inr (Call (Int_type 16 1) ''shift_right''
              [Variable (Int_type 16 1) ''x'' 0, IntImm (Int_type 16 1) 0] PureIntrinsic)
   \<and> operator_lshift (Variable (UInt_type 32 1) ''x'' 0) (UIntImm (UInt_type 32 1) 0)
     = Inr (Call (UInt_type 32 1) ''shift_left''
              [Variable (UInt_type 32 1) ''x'' 0, UIntImm (UInt_type 32 1) 0] PureIntrinsic)"
  by (simp add: operator_rshift_def operator_lshift_def BinaryOpMatchTypes_def Let_def
      as_IntImm_def int_is_def IsIndexType_def Int_type_def UInt_type_def is_int_def)

end
